theory Spec2Isabelle
  imports Main "HOL-Library.AList" "HOL-Library.Sublist"
begin

section \<open>Skill sync (\<^verbatim>\<open>skill_sync.py\<close>): data model\<close>

text \<open>
  Python \<^verbatim>\<open>str\<close> values are modelled as \<^typ>\<open>string\<close>; one element of the list stands
  for one character of the Python string, so that \<^verbatim>\<open>s[:7]\<close> is \<^term>\<open>take 7 s\<close>.

  The exceptions the code can meet. \<^verbatim>\<open>except Exception\<close> catches every one of them.
\<close>

datatype py_error =
    JSONDecodeError
  | KeyError string
  | TypeError
  | AttributeError
  | HTTPStatusError nat
  | OSError string

text \<open>
  What \<^verbatim>\<open>json.loads\<close> returns. A Python \<^verbatim>\<open>dict\<close> keeps its keys in insertion order, so
  an object is an association list (looked up with \<^const>\<open>map_of\<close>, assigned with
  \<^const>\<open>AList.update\<close>, which overwrites in place or appends). Python's \<^verbatim>\<open>None\<close> is
  \<open>JNull\<close>. The code never inspects a number; integers stand for all of them.
\<close>

datatype json =
    JNull
  | JBool bool
  | JNum int
  | JStr string
  | JArr "json list"
  | JObj "(string \<times> json) list"

text \<open>
  The text of a file is either the serialisation of a JSON value (as \<^verbatim>\<open>json.dumps\<close>
  writes it and \<^verbatim>\<open>json.loads\<close> reads it back) or text that \<^verbatim>\<open>json.loads\<close> rejects.
\<close>

datatype file_text = NotJson string | JsonText json

definition json_loads :: "file_text \<Rightarrow> py_error + json" where
  "json_loads t = (case t of NotJson _ \<Rightarrow> Inl JSONDecodeError | JsonText j \<Rightarrow> Inr j)"

definition json_dumps :: "json \<Rightarrow> file_text" where
  "json_dumps j = JsonText j"

text \<open>
  The local file system: the manifest file (it lives outside the skills directory), and
  the tree below \<^verbatim>\<open>skills_dir\<close>, keyed by the path relative to it (\<open>[]\<close> is
  \<^verbatim>\<open>skills_dir\<close> itself). Unit names are single path components. The n-th reading of
  the clock returns \<open>clock n\<close>, already in ISO format.
\<close>

datatype node = DirNode | FileNode string

type_synonym path = "string list"

record world =
  manifest_file :: "file_text option"
  nodes :: "path \<Rightarrow> node option"
  clock :: "nat \<Rightarrow> string"
  ticks :: nat

record Skill =
  name :: string
  description :: string
  files :: "string list"

text \<open>
  \<open>local_sha\<close> holds whatever the slice of the stored \<^verbatim>\<open>commit_sha\<close> evaluates to: a
  string for a stored string (a list when the manifest stores a list there).
\<close>

record SyncStatus =
  skill :: Skill
  status :: string
  local_sha :: "json option"
  remote_sha :: "string option"

section \<open>Dictionary operations of Python on parsed JSON\<close>

text \<open>\<^verbatim>\<open>d.get(k, default)\<close>: only a dict has the method.\<close>

fun dict_get :: "json \<Rightarrow> string \<Rightarrow> json \<Rightarrow> py_error + json" where
  "dict_get (JObj m) k d = Inr (case map_of m k of None \<Rightarrow> d | Some v \<Rightarrow> v)"
| "dict_get _ k d = Inl AttributeError"

text \<open>\<^verbatim>\<open>d[k]\<close> with a string key: KeyError on a dict without the key, TypeError on
  anything that is not a dict.\<close>

fun subscript :: "json \<Rightarrow> string \<Rightarrow> py_error + json" where
  "subscript (JObj m) k = (case map_of m k of None \<Rightarrow> Inl (KeyError k) | Some v \<Rightarrow> Inr v)"
| "subscript _ k = Inl TypeError"

text \<open>\<^verbatim>\<open>d[k] = v\<close> with a string key.\<close>

fun setitem :: "json \<Rightarrow> string \<Rightarrow> json \<Rightarrow> py_error + json" where
  "setitem (JObj m) k v = Inr (JObj (AList.update k v m))"
| "setitem _ k v = Inl TypeError"

text \<open>\<^verbatim>\<open>x[:7]\<close>: strings and lists can be sliced; \<^verbatim>\<open>None\<close>, booleans and numbers are not
  subscriptable, and a dict rejects a slice as a key (a TypeError up to Python 3.11, a
  KeyError from 3.12 on; it raises either way).\<close>

fun slice7 :: "json \<Rightarrow> py_error + json" where
  "slice7 (JStr s) = Inr (JStr (take 7 s))"
| "slice7 (JArr xs) = Inr (JArr (take 7 xs))"
| "slice7 _ = Inl TypeError"

text \<open>Truth value of the result of a slice, as \<^verbatim>\<open>x or None\<close> tests it.\<close>

fun truthy :: "json \<Rightarrow> bool" where
  "truthy (JStr s) = (s \<noteq> [])"
| "truthy (JArr xs) = (xs \<noteq> [])"
| "truthy (JObj m) = (m \<noteq> [])"
| "truthy (JNum n) = (n \<noteq> 0)"
| "truthy (JBool b) = b"
| "truthy JNull = False"

section \<open>SkillManager\<close>

text \<open>\<^verbatim>\<open>SkillManager.get_manifest\<close>\<close>

definition get_manifest :: "world \<Rightarrow> py_error + json" where
  "get_manifest w =
     (case manifest_file w of
        Some t \<Rightarrow> json_loads t
      | None \<Rightarrow> Inr (JObj [(''skills'', JObj [])]))"

text \<open>The first two lines of \<^verbatim>\<open>get_sync_status\<close>:
  \<^verbatim>\<open>manifest.get("skills", {})\<close> on the loaded manifest.\<close>

definition local_skills :: "world \<Rightarrow> py_error + json" where
  "local_skills w =
     (case get_manifest w of
        Inl e \<Rightarrow> Inl e
      | Inr manifest \<Rightarrow> dict_get manifest ''skills'' (JObj []))"

text \<open>The body of the loop of \<^verbatim>\<open>get_sync_status\<close>, for one skill.\<close>

definition unit_status :: "json \<Rightarrow> string \<Rightarrow> Skill \<Rightarrow> py_error + SyncStatus" where
  "unit_status ls sha sk =
     (case dict_get ls (name sk) JNull of
        Inl e \<Rightarrow> Inl e
      | Inr JNull \<Rightarrow>
          Inr \<lparr>skill = sk, status = ''new'', local_sha = None,
               remote_sha = Some (take 7 sha)\<rparr>
      | Inr local_info \<Rightarrow>
          (case dict_get local_info ''commit_sha'' (JStr '''') of
             Inl e \<Rightarrow> Inl e
           | Inr c \<Rightarrow>
               (case slice7 c of
                  Inl e \<Rightarrow> Inl e
                | Inr p \<Rightarrow>
                    if p \<noteq> JStr (take 7 sha) then
                      Inr \<lparr>skill = sk, status = ''update'',
                           local_sha = (if truthy p then Some p else None),
                           remote_sha = Some (take 7 sha)\<rparr>
                    else
                      Inr \<lparr>skill = sk, status = ''ok'', local_sha = Some p,
                           remote_sha = Some (take 7 sha)\<rparr>)))"

text \<open>The loop: statuses are appended in the order of the skills; the first exception
  ends it.\<close>

fun status_loop :: "json \<Rightarrow> string \<Rightarrow> Skill list \<Rightarrow> py_error + SyncStatus list" where
  "status_loop ls sha [] = Inr []"
| "status_loop ls sha (sk # rest) =
     (case unit_status ls sha sk of
        Inl e \<Rightarrow> Inl e
      | Inr st \<Rightarrow>
          (case status_loop ls sha rest of
             Inl e \<Rightarrow> Inl e
           | Inr sts \<Rightarrow> Inr (st # sts)))"

text \<open>\<^verbatim>\<open>SkillManager.get_sync_status\<close>\<close>

definition get_sync_status :: "world \<Rightarrow> Skill list \<Rightarrow> string \<Rightarrow> py_error + SyncStatus list" where
  "get_sync_status w skills sha =
     (case local_skills w of
        Inl e \<Rightarrow> Inl e
      | Inr ls \<Rightarrow> status_loop ls sha skills)"

text \<open>\<^verbatim>\<open>datetime.now(timezone.utc).isoformat()\<close>\<close>

definition datetime_now :: "world \<Rightarrow> string \<times> world" where
  "datetime_now w = (clock w (ticks w), w\<lparr>ticks := Suc (ticks w)\<rparr>)"

section \<open>Local file system operations\<close>

definition is_file :: "world \<Rightarrow> path \<Rightarrow> bool" where
  "is_file w p = (case nodes w p of Some (FileNode _) \<Rightarrow> True | _ \<Rightarrow> False)"

text \<open>\<^verbatim>\<open>Path.exists\<close>\<close>

definition path_exists :: "world \<Rightarrow> path \<Rightarrow> bool" where
  "path_exists w p = (nodes w p \<noteq> None)"

text \<open>\<^verbatim>\<open>Path.mkdir(parents=True, exist_ok=True)\<close>: raises when the path or one of its
  ancestors is a regular file, and then creates nothing; otherwise the path and all its
  ancestors are directories afterwards.\<close>

definition mkdir_p :: "path \<Rightarrow> world \<Rightarrow> (py_error + unit) \<times> world" where
  "mkdir_p p w =
     (if list_ex (is_file w) (prefixes p) then (Inl (OSError ''mkdir''), w)
      else (Inr (), w\<lparr>nodes := (\<lambda>q. if prefix q p then Some DirNode else nodes w q)\<rparr>))"

text \<open>\<^verbatim>\<open>shutil.rmtree\<close>: removes a directory with everything below it; raises on
  anything that is not a directory.\<close>

definition rmtree :: "path \<Rightarrow> world \<Rightarrow> (py_error + unit) \<times> world" where
  "rmtree p w =
     (case nodes w p of
        Some DirNode \<Rightarrow> (Inr (), w\<lparr>nodes := (\<lambda>q. if prefix p q then None else nodes w q)\<rparr>)
      | _ \<Rightarrow> (Inl (OSError ''rmtree''), w))"

text \<open>\<^verbatim>\<open>Path.write_bytes\<close>: raises when the path is a directory or its parent is not one.\<close>

definition write_bytes :: "path \<Rightarrow> string \<Rightarrow> world \<Rightarrow> (py_error + unit) \<times> world" where
  "write_bytes p content w =
     (if nodes w p = Some DirNode \<or> nodes w (butlast p) \<noteq> Some DirNode
      then (Inl (OSError ''write_bytes''), w)
      else (Inr (), w\<lparr>nodes := (nodes w)(p \<mapsto> FileNode content)\<rparr>))"

text \<open>\<^verbatim>\<open>SkillManager.save_manifest\<close>: the manifest path is taken to be writable.\<close>

definition save_manifest :: "json \<Rightarrow> world \<Rightarrow> (py_error + unit) \<times> world" where
  "save_manifest manifest w =
     (case mkdir_p [] w of
        (Inl e, w1) \<Rightarrow> (Inl e, w1)
      | (Inr u, w1) \<Rightarrow> (Inr (), w1\<lparr>manifest_file := Some (json_dumps manifest)\<rparr>))"

text \<open>\<^verbatim>\<open>SkillManager.record_sync\<close>. In the assignment
  \<^verbatim>\<open>manifest["skills"][skill_name] = {...}\<close> Python evaluates the right-hand side (which
  reads the clock) before \<^verbatim>\<open>manifest["skills"]\<close>; the inner dict is shared with the
  manifest, so the manifest that is saved holds the updated table at the same key.\<close>

definition record_sync ::
  "string \<Rightarrow> string \<Rightarrow> string list \<Rightarrow> world \<Rightarrow> (py_error + unit) \<times> world" where
  "record_sync skill_name commit_sha fs w =
     (case get_manifest w of
        Inl e \<Rightarrow> (Inl e, w)
      | Inr manifest \<Rightarrow>
          (case datetime_now w of
             (now, w1) \<Rightarrow>
               (case subscript manifest ''skills'' of
                  Inl e \<Rightarrow> (Inl e, w1)
                | Inr skills \<Rightarrow>
                    (case setitem skills skill_name
                            (JObj [(''commit_sha'', JStr commit_sha),
                                   (''synced_at'', JStr now),
                                   (''files'', JArr (map JStr fs))]) of
                       Inl e \<Rightarrow> (Inl e, w1)
                     | Inr skills' \<Rightarrow>
                         (case setitem manifest ''skills'' skills' of
                            Inl e \<Rightarrow> (Inl e, w1)
                          | Inr manifest' \<Rightarrow> save_manifest manifest' w1)))))"

section \<open>GitHubClient\<close>

text \<open>
  One item of a directory listing of the remote contents API, with what the requests it
  leads to answer: for type \<^verbatim>\<open>"file"\<close> the name and the outcome of obtaining and decoding
  the content (inline or by a second request); for type \<^verbatim>\<open>"dir"\<close> the name and the
  response to the listing of the item's path (an error when \<^verbatim>\<open>raise_for_status\<close> raises);
  any other type (a symlink, a submodule) with its name.
\<close>

datatype entry =
    FileItem string "py_error + string"
  | DirItem string "py_error + entry list"
  | OtherItem string

text \<open>The remote: the head revision of the branch (or the failure of that request) and,
  for each skill name, the response to the listing of \<^verbatim>\<open>skills/<name>\<close>.\<close>

record github =
  latest_commit :: "py_error + string"
  contents :: "string \<Rightarrow> py_error + entry list"

text \<open>\<^verbatim>\<open>GitHubClient._download_file\<close>\<close>

definition download_file ::
  "py_error + string \<Rightarrow> string \<Rightarrow> path \<Rightarrow> world \<Rightarrow> (py_error + unit) \<times> world" where
  "download_file fetched item_name target_dir w =
     (case fetched of
        Inl e \<Rightarrow> (Inl e, w)
      | Inr content \<Rightarrow> write_bytes (target_dir @ [item_name]) content w)"

text \<open>\<^verbatim>\<open>GitHubClient._download_directory\<close>: the request, \<^verbatim>\<open>mkdir\<close>, then the loop over the
  items of the response (\<open>download_items\<close>). The list \<open>fs\<close> is the accumulator
  \<^verbatim>\<open>files\<close>.\<close>

function (sequential) download_directory ::
    "py_error + entry list \<Rightarrow> path \<Rightarrow> string list \<Rightarrow> world \<Rightarrow> (py_error + string list) \<times> world"
  and download_items ::
    "entry list \<Rightarrow> path \<Rightarrow> string list \<Rightarrow> world \<Rightarrow> (py_error + string list) \<times> world"
where
  "download_directory (Inl e) target_dir fs w = (Inl e, w)"
| "download_directory (Inr items) target_dir fs w =
     (case mkdir_p target_dir w of
        (Inl e, w1) \<Rightarrow> (Inl e, w1)
      | (Inr u, w1) \<Rightarrow> download_items items target_dir fs w1)"
| "download_items [] target_dir fs w = (Inr fs, w)"
| "download_items (FileItem n fetched # rest) target_dir fs w =
     (case download_file fetched n target_dir w of
        (Inl e, w1) \<Rightarrow> (Inl e, w1)
      | (Inr u, w1) \<Rightarrow> download_items rest target_dir (fs @ [n]) w1)"
| "download_items (DirItem n sub # rest) target_dir fs w =
     (case download_directory sub (target_dir @ [n]) fs w of
        (Inl e, w1) \<Rightarrow> (Inl e, w1)
      | (Inr fs1, w1) \<Rightarrow> download_items rest target_dir fs1 w1)"
| "download_items (OtherItem n # rest) target_dir fs w =
     download_items rest target_dir fs w"
  by pat_completeness auto
termination
  by (relation "measure (\<lambda>x. case x of
          Inl (r, _) \<Rightarrow> Suc (2 * size_sum (\<lambda>_. 0) (size_list size) r)
        | Inr (items, _) \<Rightarrow> 2 * size_list size items)")
     auto

text \<open>\<^verbatim>\<open>GitHubClient.download_skill\<close>\<close>

definition download_skill ::
  "github \<Rightarrow> string \<Rightarrow> path \<Rightarrow> world \<Rightarrow> (py_error + string list) \<times> world" where
  "download_skill gh skill_name target_dir w =
     download_directory (contents gh skill_name) target_dir [] w"

section \<open>The sync cycle of one unit\<close>

text \<open>
  The code builds the target of a unit as \<^verbatim>\<open>skills_dir / skill_name\<close> from the raw name. A
  name that is a single path component names the directory \<open>[skill_name]\<close> right below
  \<^verbatim>\<open>skills_dir\<close>. Any other name is not such a component: the empty name, \<^verbatim>\<open>.\<close>, \<^verbatim>\<open>..\<close> and a
  name holding a \<^verbatim>\<open>/\<close> give \<^verbatim>\<open>skills_dir\<close> itself, a deeper path or a path outside
  \<^verbatim>\<open>skills_dir\<close> (for \<^verbatim>\<open>../..\<close> it is the directory that holds the manifest, and
  \<^verbatim>\<open>shutil.rmtree\<close> then removes the manifest with it), and a name holding a NUL character
  is no path of the file system at all. What the cycle does for such a name depends on
  the file system around \<^verbatim>\<open>skills_dir\<close>, which the world of this model does not hold; it is
  taken as the parameter \<open>esc\<close>, any function of the name and the world.
\<close>

definition plain_name :: "string \<Rightarrow> bool" where
  "plain_name n =
     (n \<noteq> [] \<and> n \<noteq> ''.'' \<and> n \<noteq> ''..'' \<and> CHR ''/'' \<notin> set n \<and> CHR 0x00 \<notin> set n)"

type_synonym escape = "string \<Rightarrow> world \<Rightarrow> (py_error + string list) \<times> world"

text \<open>The body of the \<^verbatim>\<open>try\<close> block of \<^verbatim>\<open>SkillSyncApp.sync_selected\<close> (the one of
  \<^verbatim>\<open>sync_skills_cli\<close> is the same, word for word): remove the existing target, download,
  record. It returns the downloaded file list, or the exception that the
  \<^verbatim>\<open>except Exception\<close> clause receives.\<close>

definition sync_cycle ::
  "escape \<Rightarrow> github \<Rightarrow> string \<Rightarrow> string \<Rightarrow> world \<Rightarrow> (py_error + string list) \<times> world" where
  "sync_cycle esc gh sha skill_name w =
     (if plain_name skill_name then
        (case (if path_exists w [skill_name] then rmtree [skill_name] w else (Inr (), w)) of
           (Inl e, w1) \<Rightarrow> (Inl e, w1)
         | (Inr u, w1) \<Rightarrow>
             (case download_skill gh skill_name [skill_name] w1 of
                (Inl e, w2) \<Rightarrow> (Inl e, w2)
              | (Inr fs, w2) \<Rightarrow>
                  (case record_sync skill_name sha fs w2 of
                     (Inl e, w3) \<Rightarrow> (Inl e, w3)
                   | (Inr u, w3) \<Rightarrow> (Inr fs, w3))))
      else esc skill_name w)"

section \<open>SkillSyncApp: the interactive worker\<close>

text \<open>The state of the application that the worker reads and writes, and the messages it
  hands to \<^verbatim>\<open>update_status\<close>, in the order of the calls.\<close>

record app =
  app_statuses :: "SyncStatus list"
  app_remote_sha :: string
  selected :: "string set"
  synced_skills :: "string list"

datatype msg =
    Syncing string nat nat
  | ErrorSyncing string py_error
  | Done nat

text \<open>The \<^verbatim>\<open>for\<close> loop of \<^verbatim>\<open>sync_selected\<close> over \<^verbatim>\<open>enumerate(skills_to_sync, 1)\<close>; \<open>i\<close>
  is the running index, \<open>tot\<close> the length of the batch, \<open>synced\<close> is \<^verbatim>\<open>self.synced_skills\<close>.\<close>

fun sync_loop ::
  "escape \<Rightarrow> github \<Rightarrow> string \<Rightarrow> nat \<Rightarrow> nat \<Rightarrow> SyncStatus list \<Rightarrow> string list \<Rightarrow> world
     \<Rightarrow> msg list \<times> string list \<times> world" where
  "sync_loop esc gh sha tot i [] synced w = ([], synced, w)"
| "sync_loop esc gh sha tot i (st # rest) synced w =
     (case sync_cycle esc gh sha (name (skill st)) w of
        (Inr fs, w1) \<Rightarrow>
          (case sync_loop esc gh sha tot (Suc i) rest (synced @ [name (skill st)]) w1 of
             (ms, synced', w2) \<Rightarrow> (Syncing (name (skill st)) i tot # ms, synced', w2))
      | (Inl e, w1) \<Rightarrow>
          (case sync_loop esc gh sha tot (Suc i) rest synced w1 of
             (ms, synced', w2) \<Rightarrow>
               (Syncing (name (skill st)) i tot # ErrorSyncing (name (skill st)) e # ms,
                synced', w2)))"

text \<open>\<^verbatim>\<open>SkillSyncApp.refresh_table\<close>, as far as it changes the state of the application:
  the statuses are recomputed, and the synced names are taken out of the selection. An
  exception of \<^verbatim>\<open>get_sync_status\<close> leaves the state as it is.\<close>

definition refresh_table :: "app \<Rightarrow> world \<Rightarrow> py_error + app" where
  "refresh_table a w =
     (case get_sync_status w (map skill (app_statuses a)) (app_remote_sha a) of
        Inl e \<Rightarrow> Inl e
      | Inr new_statuses \<Rightarrow>
          Inr (a\<lparr>selected :=
                    selected a - (set (map (name \<circ> skill) new_statuses) \<inter> set (synced_skills a)),
                 app_statuses := new_statuses\<rparr>))"

text \<open>\<^verbatim>\<open>SkillSyncApp.sync_selected\<close>: the batch, the final message, the refresh.\<close>

definition skills_to_sync :: "app \<Rightarrow> SyncStatus list" where
  "skills_to_sync a = filter (\<lambda>s. name (skill s) \<in> selected a) (app_statuses a)"

definition sync_selected ::
  "escape \<Rightarrow> github \<Rightarrow> app \<Rightarrow> world \<Rightarrow> (py_error + unit) \<times> msg list \<times> app \<times> world" where
  "sync_selected esc gh a w =
     (case sync_loop esc gh (app_remote_sha a) (length (skills_to_sync a)) 1
             (skills_to_sync a) (synced_skills a) w of
        (ms, synced, w1) \<Rightarrow>
          (case refresh_table (a\<lparr>synced_skills := synced\<rparr>) w1 of
             Inl e \<Rightarrow> (Inl e, ms @ [Done (length synced)], a\<lparr>synced_skills := synced\<rparr>, w1)
           | Inr a1 \<Rightarrow> (Inr (), ms @ [Done (length synced)], a1, w1)))"

section \<open>The order of the download walk\<close>

text \<open>The leaf names of the files of a subtree, walking every listing in the order of its
  items and entering a directory at the place where its item stands.\<close>

function (sequential) leaf_names :: "entry list \<Rightarrow> string list" where
  "leaf_names [] = []"
| "leaf_names (FileItem n fetched # rest) = n # leaf_names rest"
| "leaf_names (DirItem n (Inr sub) # rest) = leaf_names sub @ leaf_names rest"
| "leaf_names (DirItem n (Inl e) # rest) = leaf_names rest"
| "leaf_names (OtherItem n # rest) = leaf_names rest"
  by pat_completeness auto
termination
  by (relation "measure (size_list size)") auto

text \<open>
  The order the specification words: for each directory listing, every entry of type
  \<^verbatim>\<open>"file"\<close> is downloaded before the walk descends into the entries of type \<^verbatim>\<open>"dir"\<close>.
\<close>

fun level_files :: "entry list \<Rightarrow> string list" where
  "level_files [] = []"
| "level_files (FileItem n fetched # rest) = n # level_files rest"
| "level_files (_ # rest) = level_files rest"

function (sequential) spec_files_first :: "entry list \<Rightarrow> string list"
  and spec_descend :: "entry list \<Rightarrow> string list" where
  "spec_files_first items = level_files items @ spec_descend items"
| "spec_descend [] = []"
| "spec_descend (DirItem n (Inr sub) # rest) = spec_files_first sub @ spec_descend rest"
| "spec_descend (_ # rest) = spec_descend rest"
  by pat_completeness auto
termination
  by (relation "measure (\<lambda>x. case x of
          Inl items \<Rightarrow> Suc (2 * size_list size items)
        | Inr items \<Rightarrow> 2 * size_list size items)")
     auto

section \<open>Observations on a batch\<close>

text \<open>The entry of a unit in the manifest, looked up the way \<^verbatim>\<open>get_sync_status\<close> does:
  \<^verbatim>\<open>manifest.get("skills", {}).get(name)\<close>.\<close>

definition manifest_entry :: "world \<Rightarrow> string \<Rightarrow> json option" where
  "manifest_entry w n =
     (case local_skills w of
        Inr (JObj units) \<Rightarrow> map_of units n
      | _ \<Rightarrow> None)"

text \<open>A step that touches neither the manifest file nor the clock.\<close>

definition keeps_manifest :: "world \<Rightarrow> world \<Rightarrow> bool" where
  "keeps_manifest w w' =
     (manifest_file w' = manifest_file w \<and> clock w' = clock w \<and> ticks w' = ticks w)"

text \<open>A step that leaves the local tree as it is outside a path, its ancestors and what
  lies below it.\<close>

definition same_outside :: "path \<Rightarrow> world \<Rightarrow> world \<Rightarrow> bool" where
  "same_outside t w w' = (\<forall>q. \<not> prefix t q \<and> \<not> prefix q t \<longrightarrow> nodes w' q = nodes w q)"

text \<open>The messages of the worker for one unit: the announcement with the index and the
  total, and the error when the cycle has raised.\<close>

definition unit_msgs :: "nat \<Rightarrow> nat \<times> string \<times> (py_error + string list) \<Rightarrow> msg list" where
  "unit_msgs tot x =
     (case x of (k, n, r) \<Rightarrow>
        Syncing n k tot # (case r of Inl e \<Rightarrow> [ErrorSyncing n e] | Inr fs \<Rightarrow> []))"

text \<open>The names whose cycle has returned, given the names and the outcome of each cycle.\<close>

definition succeeded :: "string list \<Rightarrow> (py_error + string list) list \<Rightarrow> string list" where
  "succeeded ns rs = map fst (filter (\<lambda>x. \<not> isl (snd x)) (zip ns rs))"

text \<open>The first step that raises in the cycle of a unit on a world, each step run on the
  world the step before it has left: the removal of the existing directory, else the
  download, else the recording of the downloaded file list.\<close>

definition step_raises :: "github \<Rightarrow> string \<Rightarrow> string \<Rightarrow> world \<Rightarrow> py_error \<Rightarrow> bool" where
  "step_raises gh sha n v e =
     (if path_exists v [n] \<and> isl (fst (rmtree [n] v)) then fst (rmtree [n] v) = Inl e
      else
        (case download_skill gh n [n] (if path_exists v [n] then snd (rmtree [n] v) else v) of
           (Inl e', v2) \<Rightarrow> e' = e
         | (Inr fs, v2) \<Rightarrow> fst (record_sync n sha fs v2) = Inl e))"

section \<open>Example data\<close>

definition empty_world :: world where
  "empty_world =
     \<lparr>manifest_file = None, nodes = (\<lambda>p. None),
      clock = (\<lambda>n. ''2026-01-01T00:00:00+00:00''), ticks = 0\<rparr>"

definition pdf :: Skill where
  "pdf = \<lparr>name = ''pdf'', description = '''', files = []\<rparr>"

definition docx :: Skill where
  "docx = \<lparr>name = ''docx'', description = '''', files = []\<rparr>"

definition pptx :: Skill where
  "pptx = \<lparr>name = ''pptx'', description = '''', files = []\<rparr>"

definition stored_world :: "string \<Rightarrow> world" where
  "stored_world r =
     empty_world\<lparr>manifest_file :=
       Some (JsonText (JObj [(''skills'',
         JObj [(''pdf'', JObj [(''commit_sha'', JStr r),
                               (''synced_at'', JStr ''2025-12-31T00:00:00+00:00''),
                               (''files'', JArr [JStr ''SKILL.md''])])]),
         (''version'', JNum 1)]))\<rparr>"

text \<open>A unit whose listing has a directory between two files.\<close>

definition pdf_items :: "entry list" where
  "pdf_items =
     [FileItem ''SKILL.md'' (Inr ''# pdf''),
      DirItem ''scripts'' (Inr [FileItem ''run.py'' (Inr ''print()'')]),
      FileItem ''template.md'' (Inr ''t'')]"

definition pdf_remote :: github where
  "pdf_remote =
     \<lparr>latest_commit = Inr ''abcdef1234567'',
      contents = (\<lambda>n. if n = ''pdf'' then Inr pdf_items else Inl (HTTPStatusError 404))\<rparr>"

text \<open>A session of the interactive worker: the remote serves \<^verbatim>\<open>docx\<close>, \<^verbatim>\<open>pptx\<close> and \<^verbatim>\<open>xlsx\<close>
  and answers the listing of \<^verbatim>\<open>pdf\<close> with an error.\<close>

definition batch_remote :: github where
  "batch_remote =
     \<lparr>latest_commit = Inr ''abcdef1234567'',
      contents = (\<lambda>n. if n = ''pdf'' then Inl (HTTPStatusError 500)
                       else if n \<in> {''docx'', ''pptx'', ''xlsx''}
                       then Inr [FileItem ''SKILL.md'' (Inr ''# skill'')]
                       else Inl (HTTPStatusError 404))\<rparr>"

definition new_status :: "Skill \<Rightarrow> SyncStatus" where
  "new_status sk =
     \<lparr>skill = sk, status = ''new'', local_sha = None, remote_sha = Some ''abcdef1''\<rparr>"

definition xlsx :: Skill where
  "xlsx = \<lparr>name = ''xlsx'', description = '''', files = []\<rparr>"

text \<open>The application as \<^verbatim>\<open>main\<close> builds it, after the user has selected three units.\<close>

definition fresh_app :: app where
  "fresh_app =
     \<lparr>app_statuses = map new_status [docx, pdf, pptx, xlsx],
      app_remote_sha = ''abcdef1234567'',
      selected = {''docx'', ''pdf'', ''pptx''},
      synced_skills = []\<rparr>"

text \<open>In the examples every name is a single path component; the cycle of any other
  name is taken to raise.\<close>

definition outside_fails :: escape where
  "outside_fails n w = (Inl (OSError ''outside''), w)"

text \<open>The run of the worker on the three selected units, from an empty skills
  directory.\<close>

definition batch_run :: "(py_error + unit) \<times> msg list \<times> app \<times> world" where
  "batch_run = sync_selected outside_fails batch_remote fresh_app empty_world"

text \<open>The same session when the user first syncs \<^verbatim>\<open>xlsx\<close> alone and then selects the three
  other units and syncs again.\<close>

definition first_run :: "(py_error + unit) \<times> msg list \<times> app \<times> world" where
  "first_run =
     sync_selected outside_fails batch_remote (fresh_app\<lparr>selected := {''xlsx''}\<rparr>) empty_world"

definition second_run :: "(py_error + unit) \<times> msg list \<times> app \<times> world" where
  "second_run =
     sync_selected outside_fails batch_remote
       ((fst (snd (snd first_run)))\<lparr>selected := {''docx'', ''pdf'', ''pptx''}\<rparr>)
       (snd (snd (snd first_run)))"

section \<open>Status resolution\<close>

lemma unit_status_skill: "unit_status ls sha sk = Inr st \<Longrightarrow> skill st = sk"
  by (auto simp: unit_status_def split: sum.splits json.splits if_splits)

lemma status_loop_skills: "status_loop ls sha sks = Inr sts \<Longrightarrow> map skill sts = sks"
  by (induction sks arbitrary: sts) (auto split: sum.splits dest: unit_status_skill)

lemma status_loop_nth:
  "status_loop ls sha sks = Inr sts \<Longrightarrow> i < length sks \<Longrightarrow> unit_status ls sha (sks ! i) = Inr (sts ! i)"
proof (induction sks arbitrary: sts i)
  case Nil
  then show ?case by simp
next
  case (Cons sk rest)
  then show ?case by (cases i) (auto split: sum.splits)
qed

lemma status_loop_map:
  "\<forall>sk\<in>set sks. unit_status ls sha sk = Inr (f sk) \<Longrightarrow> status_loop ls sha sks = Inr (map f sks)"
  by (induction sks) auto

lemma unit_status_absent:
  "map_of units (name sk) = None \<Longrightarrow>
   unit_status (JObj units) sha sk =
     Inr \<lparr>skill = sk, status = ''new'', local_sha = None, remote_sha = Some (take 7 sha)\<rparr>"
  by (simp add: unit_status_def)

lemma unit_status_stored:
  "map_of units (name sk) = Some (JObj entry) \<Longrightarrow>
   dict_get (JObj entry) ''commit_sha'' (JStr '''') = Inr (JStr stored) \<Longrightarrow>
   unit_status (JObj units) sha sk =
     Inr (if take 7 stored = take 7 sha
          then \<lparr>skill = sk, status = ''ok'', local_sha = Some (JStr (take 7 stored)),
                remote_sha = Some (take 7 sha)\<rparr>
          else \<lparr>skill = sk, status = ''update'',
                local_sha = (if stored = [] then None else Some (JStr (take 7 stored))),
                remote_sha = Some (take 7 sha)\<rparr>)"
  by (simp add: unit_status_def)

text \<open>
  Claim C5 (new-unit detection). When the unit table of the manifest has no entry for the
  name of a unit, status resolution gives that unit the status \<^verbatim>\<open>new\<close>, no local revision
  prefix and the first 7 characters of the remote revision, whatever the remote revision
  is: resolving the unit alone returns exactly that status, and so does its position in
  every run over a list of units that returns.
\<close>

theorem new_unit_detection:
  assumes "local_skills w = Inr (JObj units)"
    and "map_of units (name sk) = None"
  shows "get_sync_status w [sk] sha =
           Inr [\<lparr>skill = sk, status = ''new'', local_sha = None,
                 remote_sha = Some (take 7 sha)\<rparr>]
         \<and> (\<forall>sks sts i. get_sync_status w sks sha = Inr sts \<and> i < length sks \<and> sks ! i = sk
              \<longrightarrow> sts ! i = \<lparr>skill = sk, status = ''new'', local_sha = None,
                               remote_sha = Some (take 7 sha)\<rparr>)"
proof -
  have one: "unit_status (JObj units) sha sk =
      Inr \<lparr>skill = sk, status = ''new'', local_sha = None, remote_sha = Some (take 7 sha)\<rparr>"
    using assms(2) by (rule unit_status_absent)
  have "get_sync_status w [sk] sha =
      Inr [\<lparr>skill = sk, status = ''new'', local_sha = None, remote_sha = Some (take 7 sha)\<rparr>]"
    by (simp add: get_sync_status_def assms(1) one)
  moreover have "sts ! i = \<lparr>skill = sk, status = ''new'', local_sha = None,
                               remote_sha = Some (take 7 sha)\<rparr>"
    if "get_sync_status w sks sha = Inr sts" "i < length sks" "sks ! i = sk" for sks sts i
  proof -
    from that(1) have "status_loop (JObj units) sha sks = Inr sts"
      by (simp add: get_sync_status_def assms(1))
    from status_loop_nth[OF this that(2)] that(3) one show ?thesis by simp
  qed
  ultimately show ?thesis by blast
qed

theorem new_unit_detection_witness:
  "local_skills empty_world = Inr (JObj []) \<and> map_of [] (name pdf) = (None :: json option)
   \<and> get_sync_status empty_world [pdf] ''abcdef1234567'' =
        Inr [\<lparr>skill = pdf, status = ''new'', local_sha = None, remote_sha = Some ''abcdef1''\<rparr>]"
proof -
  have h1: "local_skills empty_world = Inr (JObj [])"
    by (simp add: local_skills_def get_manifest_def empty_world_def)
  have h2: "map_of [] (name pdf) = (None :: json option)" by simp
  from new_unit_detection[OF h1 h2, of "''abcdef1234567''"] h1 h2 show ?thesis by simp
qed

text \<open>
  Claim C2 (revision-prefix comparison). For a unit with a manifest entry whose stored
  revision is the string \<open>stored\<close> (the empty string when the entry has no
  \<^verbatim>\<open>commit_sha\<close>), the resolver compares the first 7 characters of both revisions: equal
  prefixes give \<^verbatim>\<open>ok\<close> (unchanged); different prefixes give \<^verbatim>\<open>update\<close> with the local
  prefix \<open>take 7 stored\<close>, or none when the stored revision is empty, and the remote
  prefix \<open>take 7 sha\<close>. An empty stored revision does not make the resolver fail.
\<close>

theorem revision_prefix_comparison:
  assumes "local_skills w = Inr (JObj units)"
    and "map_of units (name sk) = Some (JObj entry)"
    and "dict_get (JObj entry) ''commit_sha'' (JStr '''') = Inr (JStr stored)"
  shows "get_sync_status w [sk] sha =
           Inr [if take 7 stored = take 7 sha
                then \<lparr>skill = sk, status = ''ok'', local_sha = Some (JStr (take 7 stored)),
                      remote_sha = Some (take 7 sha)\<rparr>
                else \<lparr>skill = sk, status = ''update'',
                      local_sha = (if stored = [] then None else Some (JStr (take 7 stored))),
                      remote_sha = Some (take 7 sha)\<rparr>]
         \<and> (\<forall>sks sts i. get_sync_status w sks sha = Inr sts \<and> i < length sks \<and> sks ! i = sk
              \<longrightarrow> sts ! i =
                   (if take 7 stored = take 7 sha
                    then \<lparr>skill = sk, status = ''ok'', local_sha = Some (JStr (take 7 stored)),
                          remote_sha = Some (take 7 sha)\<rparr>
                    else \<lparr>skill = sk, status = ''update'',
                          local_sha = (if stored = [] then None else Some (JStr (take 7 stored))),
                          remote_sha = Some (take 7 sha)\<rparr>))"
proof -
  let ?st = "if take 7 stored = take 7 sha
                then \<lparr>skill = sk, status = ''ok'', local_sha = Some (JStr (take 7 stored)),
                      remote_sha = Some (take 7 sha)\<rparr>
                else \<lparr>skill = sk, status = ''update'',
                      local_sha = (if stored = [] then None else Some (JStr (take 7 stored))),
                      remote_sha = Some (take 7 sha)\<rparr>"
  have one: "unit_status (JObj units) sha sk = Inr ?st"
    using assms(2,3) by (rule unit_status_stored)
  have "get_sync_status w [sk] sha = Inr [?st]"
    by (simp only: get_sync_status_def assms(1) one status_loop.simps sum.case)
  moreover have "sts ! i = ?st"
    if "get_sync_status w sks sha = Inr sts" "i < length sks" "sks ! i = sk" for sks sts i
  proof -
    from that(1) have "status_loop (JObj units) sha sks = Inr sts"
      by (simp add: get_sync_status_def assms(1))
    from status_loop_nth[OF this that(2)] that(3) one show ?thesis by simp
  qed
  ultimately show ?thesis by blast
qed

lemma local_skills_stored_world:
  "local_skills (stored_world r) =
     Inr (JObj [(''pdf'', JObj [(''commit_sha'', JStr r),
                               (''synced_at'', JStr ''2025-12-31T00:00:00+00:00''),
                               (''files'', JArr [JStr ''SKILL.md''])])])"
  by (simp add: local_skills_def get_manifest_def stored_world_def empty_world_def json_loads_def)

theorem revision_prefix_comparison_witness:
  "get_sync_status (stored_world ''abcdef1ffffff'') [pdf] ''abcdef1234567'' =
     Inr [\<lparr>skill = pdf, status = ''ok'', local_sha = Some (JStr ''abcdef1''),
           remote_sha = Some ''abcdef1''\<rparr>]
   \<and> get_sync_status (stored_world ''abcdeX1234567'') [pdf] ''abcdef1234567'' =
     Inr [\<lparr>skill = pdf, status = ''update'', local_sha = Some (JStr ''abcdeX1''),
           remote_sha = Some ''abcdef1''\<rparr>]
   \<and> get_sync_status (stored_world '''') [pdf] ''abcdef1234567'' =
     Inr [\<lparr>skill = pdf, status = ''update'', local_sha = None,
           remote_sha = Some ''abcdef1''\<rparr>]"
proof -
  have h2: "map_of [(''pdf'', JObj [(''commit_sha'', JStr r),
                               (''synced_at'', JStr ''2025-12-31T00:00:00+00:00''),
                               (''files'', JArr [JStr ''SKILL.md''])])] (name pdf)
            = Some (JObj [(''commit_sha'', JStr r),
                               (''synced_at'', JStr ''2025-12-31T00:00:00+00:00''),
                               (''files'', JArr [JStr ''SKILL.md''])])" for r
    by (simp add: pdf_def)
  have h3: "dict_get (JObj [(''commit_sha'', JStr r),
                               (''synced_at'', JStr ''2025-12-31T00:00:00+00:00''),
                               (''files'', JArr [JStr ''SKILL.md''])]) ''commit_sha'' (JStr '''')
            = Inr (JStr r)" for r
    by simp
  from revision_prefix_comparison[OF local_skills_stored_world h2 h3, of "''abcdef1ffffff''" "''abcdef1234567''"]
       revision_prefix_comparison[OF local_skills_stored_world h2 h3, of "''abcdeX1234567''" "''abcdef1234567''"]
       revision_prefix_comparison[OF local_skills_stored_world h2 h3, of "''''" "''abcdef1234567''"]
  show ?thesis by simp
qed

lemma unit_status_total:
  assumes "\<forall>e. map_of units (name sk) = Some e \<longrightarrow>
             (\<exists>m. e = JObj m \<and> (\<forall>c. map_of m ''commit_sha'' = Some c \<longrightarrow> (\<exists>s. c = JStr s)))"
  shows "\<exists>st. unit_status (JObj units) sha sk = Inr st"
proof (cases "map_of units (name sk)")
  case None
  then show ?thesis by (simp add: unit_status_absent)
next
  case (Some e)
  with assms obtain m where e: "e = JObj m"
    and c: "\<forall>c. map_of m ''commit_sha'' = Some c \<longrightarrow> (\<exists>s. c = JStr s)" by blast
  have "\<exists>stored. dict_get (JObj m) ''commit_sha'' (JStr '''') = Inr (JStr stored)"
    using c by (cases "map_of m ''commit_sha''") auto
  then obtain stored where "dict_get (JObj m) ''commit_sha'' (JStr '''') = Inr (JStr stored)" ..
  from unit_status_stored[OF Some[unfolded e] this] show ?thesis by blast
qed

lemma status_loop_total:
  "\<forall>sk\<in>set sks. \<exists>st. unit_status ls sha sk = Inr st \<Longrightarrow> \<exists>sts. status_loop ls sha sks = Inr sts"
  by (induction sks) auto

text \<open>
  Claim C6 (order preservation). For a manifest whose unit table holds, for each unit of
  the input, no entry or an object with a string revision (or none), status resolution
  returns one status per unit, in the order of the input; and whatever the manifest file
  holds, a run that returns has as many statuses as units, for the same units in the
  same order.
\<close>

theorem order_preservation:
  assumes "local_skills w = Inr (JObj units)"
    and "\<forall>sk\<in>set sks. \<forall>e. map_of units (name sk) = Some e \<longrightarrow>
           (\<exists>m. e = JObj m \<and> (\<forall>c. map_of m ''commit_sha'' = Some c \<longrightarrow> (\<exists>s. c = JStr s)))"
  shows "(\<exists>sts. get_sync_status w sks sha = Inr sts \<and> length sts = length sks
                \<and> map skill sts = sks)
         \<and> (\<forall>w' sks' sts'. get_sync_status w' sks' sha = Inr sts'
               \<longrightarrow> length sts' = length sks' \<and> map skill sts' = sks')"
proof -
  have any: "length sts' = length sks' \<and> map skill sts' = sks'"
    if "get_sync_status w' sks' sha = Inr sts'" for w' sks' sts'
  proof -
    from that obtain ls where "status_loop ls sha sks' = Inr sts'"
      by (auto simp: get_sync_status_def split: sum.splits)
    then have "map skill sts' = sks'" by (rule status_loop_skills)
    then show ?thesis by (metis length_map)
  qed
  have "\<forall>sk\<in>set sks. \<exists>st. unit_status (JObj units) sha sk = Inr st"
    using assms(2) unit_status_total by blast
  then obtain sts where "status_loop (JObj units) sha sks = Inr sts"
    using status_loop_total by blast
  then have "get_sync_status w sks sha = Inr sts"
    by (simp add: get_sync_status_def assms(1))
  with any show ?thesis by blast
qed

theorem order_preservation_witness:
  "local_skills (stored_world ''abcdef1234567'') =
     Inr (JObj [(''pdf'', JObj [(''commit_sha'', JStr ''abcdef1234567''),
                               (''synced_at'', JStr ''2025-12-31T00:00:00+00:00''),
                               (''files'', JArr [JStr ''SKILL.md''])])])
   \<and> (\<exists>sts. get_sync_status (stored_world ''abcdef1234567'') [pptx, pdf, docx] ''abcdef1234567''
              = Inr sts \<and> length sts = length [pptx, pdf, docx]
              \<and> map skill sts = [pptx, pdf, docx])"
proof -
  have h2: "\<forall>sk\<in>set [pptx, pdf, docx].
        \<forall>e. map_of [(''pdf'', JObj [(''commit_sha'', JStr ''abcdef1234567''),
                               (''synced_at'', JStr ''2025-12-31T00:00:00+00:00''),
                               (''files'', JArr [JStr ''SKILL.md''])])] (name sk) = Some e \<longrightarrow>
           (\<exists>m. e = JObj m \<and> (\<forall>c. map_of m ''commit_sha'' = Some c \<longrightarrow> (\<exists>s. c = JStr s)))"
    by (simp add: pdf_def docx_def pptx_def)
  from order_preservation[OF local_skills_stored_world h2, of "''abcdef1234567''"]
  have "\<exists>sts. get_sync_status (stored_world ''abcdef1234567'') [pptx, pdf, docx] ''abcdef1234567''
              = Inr sts \<and> length sts = length [pptx, pdf, docx]
              \<and> map skill sts = [pptx, pdf, docx]"
    by blast
  with local_skills_stored_world show ?thesis by blast
qed

section \<open>The manifest\<close>

text \<open>
  Claim C8 (manifest load). Without a manifest file \<^verbatim>\<open>get_manifest\<close> returns the empty
  manifest, an object whose only key \<^verbatim>\<open>skills\<close> holds an empty table, and does not raise.
  With a file whose text does not parse, the decode error is raised, and the callers
  \<^verbatim>\<open>get_sync_status\<close> and \<^verbatim>\<open>record_sync\<close> raise it in turn; nothing replaces the file by an
  empty manifest.
\<close>

theorem manifest_load:
  "(manifest_file w = None \<longrightarrow> get_manifest w = Inr (JObj [(''skills'', JObj [])]))
   \<and> (\<forall>t. manifest_file w = Some (NotJson t) \<longrightarrow>
          get_manifest w = Inl JSONDecodeError
          \<and> get_sync_status w sks sha = Inl JSONDecodeError
          \<and> record_sync n sha fs w = (Inl JSONDecodeError, w))"
  by (simp add: get_manifest_def json_loads_def get_sync_status_def local_skills_def
        record_sync_def)

theorem manifest_load_witness:
  "get_manifest empty_world = Inr (JObj [(''skills'', JObj [])])
   \<and> get_manifest (empty_world\<lparr>manifest_file := Some (NotJson ''not json'')\<rparr>)
       = Inl JSONDecodeError"
  using manifest_load[of empty_world]
        manifest_load[of "empty_world\<lparr>manifest_file := Some (NotJson ''not json'')\<rparr>"]
  by (simp add: empty_world_def)

lemma mkdir_p_manifest: "mkdir_p p w = (r, w') \<Longrightarrow> manifest_file w' = manifest_file w \<and> clock w' = clock w \<and> ticks w' = ticks w"
  by (auto simp: mkdir_p_def split: if_splits)

lemma save_manifest_result:
  "save_manifest m w = (r, w') \<Longrightarrow>
     (r = Inr () \<and> manifest_file w' = Some (JsonText m)) \<or>
     ((\<exists>e. r = Inl e) \<and> manifest_file w' = manifest_file w)"
  by (auto simp: save_manifest_def json_dumps_def split: prod.splits sum.splits dest: mkdir_p_manifest)

text \<open>What a successful \<^verbatim>\<open>record_sync\<close> has read and written.\<close>

lemma record_sync_Inr:
  assumes "record_sync n sha fs w = (Inr u, w')"
  shows "\<exists>m units. get_manifest w = Inr (JObj m) \<and> map_of m ''skills'' = Some (JObj units)
           \<and> manifest_file w' =
               Some (JsonText (JObj (AList.update ''skills''
                 (JObj (AList.update n
                    (JObj [(''commit_sha'', JStr sha), (''synced_at'', JStr (clock w (ticks w))),
                           (''files'', JArr (map JStr fs))]) units)) m)))"
proof -
  from assms obtain manifest where gm: "get_manifest w = Inr manifest"
    by (auto simp: record_sync_def split: sum.splits)
  from assms gm obtain skills where sk: "subscript manifest ''skills'' = Inr skills"
    by (auto simp: record_sync_def datetime_now_def split: sum.splits)
  from sk obtain m where m: "manifest = JObj m" and mk: "map_of m ''skills'' = Some skills"
    by (cases manifest) (auto split: option.splits)
  from assms gm sk obtain units where u: "skills = JObj units"
    by (cases skills) (auto simp: record_sync_def datetime_now_def split: sum.splits)
  from assms gm sk m u
  have "save_manifest (JObj (AList.update ''skills''
                 (JObj (AList.update n
                    (JObj [(''commit_sha'', JStr sha), (''synced_at'', JStr (clock w (ticks w))),
                           (''files'', JArr (map JStr fs))]) units)) m))
          (w\<lparr>ticks := Suc (ticks w)\<rparr>) = (Inr u, w')"
    by (simp add: record_sync_def datetime_now_def)
  from save_manifest_result[OF this] gm m mk u show ?thesis by auto
qed

lemma record_sync_Inl:
  assumes "record_sync n sha fs w = (Inl e, w')"
  shows "manifest_file w' = manifest_file w"
  using assms
  by (auto simp: record_sync_def datetime_now_def split: sum.splits prod.splits
      dest!: save_manifest_result)

lemma get_manifest_file:
  "manifest_file w = Some (JsonText j) \<Longrightarrow> get_manifest w = Inr j"
  by (simp add: get_manifest_def json_loads_def)

lemma get_manifest_object_cases:
  assumes "get_manifest w = Inr (JObj m)"
  shows "(manifest_file w = None \<and> m = [(''skills'', JObj [])])
         \<or> manifest_file w = Some (JsonText (JObj m))"
  using assms by (auto simp: get_manifest_def json_loads_def split: option.splits file_text.splits)

lemma single_key:
  "distinct (map fst al) \<Longrightarrow> k \<in> fst ` set al \<Longrightarrow> length (filter (\<lambda>p. fst p = k) al) = 1"
proof (induction al)
  case Nil
  then show ?case by simp
next
  case (Cons p al)
  show ?case
  proof (cases "fst p = k")
    case True
    with Cons.prems(1) have "filter (\<lambda>q. fst q = k) al = []"
      by (auto simp: filter_empty_conv intro: rev_image_eqI)
    with True show ?thesis by simp
  next
    case False
    with Cons show ?thesis by auto
  qed
qed

lemma local_skills_object:
  "get_manifest w = Inr (JObj m) \<Longrightarrow> map_of m ''skills'' = Some v \<Longrightarrow> local_skills w = Inr v"
  by (simp add: local_skills_def)

lemma record_sync_empty_world:
  "fst (record_sync ''pdf'' ''abcdef1234567'' [''SKILL.md'', ''forms.md''] empty_world) = Inr ()"
  by (simp add: record_sync_def get_manifest_def empty_world_def datetime_now_def
        save_manifest_def mkdir_p_def is_file_def)

text \<open>
  Claim C9 (frame property of \<^verbatim>\<open>record_sync\<close>). When the manifest file holds an object
  with a unit table under \<^verbatim>\<open>skills\<close>, the file after \<^verbatim>\<open>record_sync\<close> holds an object with
  the same top-level keys in the same order, the same value under every key other than
  \<^verbatim>\<open>skills\<close>, and a unit table with the same entry for every unit other than the one
  recorded. The call succeeds unless \<^verbatim>\<open>skills_dir\<close> is a regular file, and then the entry
  of the unit is the new one; when it raises, the file holds what it held.
\<close>

theorem record_sync_frame:
  assumes "manifest_file w = Some (JsonText (JObj m))"
    and "map_of m ''skills'' = Some (JObj units)"
    and "record_sync n sha fs w = (r, w')"
  shows "\<exists>m' units'.
           manifest_file w' = Some (JsonText (JObj m'))
           \<and> map fst m' = map fst m
           \<and> (\<forall>k. k \<noteq> ''skills'' \<longrightarrow> map_of m' k = map_of m k)
           \<and> map_of m' ''skills'' = Some (JObj units')
           \<and> (\<forall>k. k \<noteq> n \<longrightarrow> map_of units' k = map_of units k)
           \<and> (r = Inr () \<longrightarrow>
                map_of units' n =
                  Some (JObj [(''commit_sha'', JStr sha),
                              (''synced_at'', JStr (clock w (ticks w))),
                              (''files'', JArr (map JStr fs))]))
           \<and> (r \<noteq> Inr () \<longrightarrow> m' = m)
           \<and> (\<not> is_file w [] \<longrightarrow> r = Inr ())"
proof (cases r)
  case (Inl e)
  with assms(3) have "manifest_file w' = manifest_file w" by (simp add: record_sync_Inl)
  moreover have "is_file w []"
    using assms Inl
    by (auto simp: record_sync_def datetime_now_def get_manifest_file save_manifest_def
          mkdir_p_def is_file_def split: if_splits)
  ultimately show ?thesis using assms(1,2) Inl by auto
next
  case (Inr u)
  let ?entry = "JObj [(''commit_sha'', JStr sha), (''synced_at'', JStr (clock w (ticks w))),
                      (''files'', JArr (map JStr fs))]"
  from assms(3) Inr have "record_sync n sha fs w = (Inr u, w')" by simp
  from record_sync_Inr[OF this] assms(1,2)
  have wfile: "manifest_file w' =
      Some (JsonText (JObj (AList.update ''skills'' (JObj (AList.update n ?entry units)) m)))"
    by (auto simp: get_manifest_file)
  have keys: "map fst (AList.update ''skills'' (JObj (AList.update n ?entry units)) m) = map fst m"
    using assms(2) by (auto simp: update_keys dest: map_of_SomeD intro: rev_image_eqI)
  show ?thesis
    using wfile keys Inr by (auto simp: update_conv')
qed

theorem record_sync_frame_witness:
  "\<exists>m' units'.
     manifest_file (snd (record_sync ''docx'' ''abcdef1234567'' [''SKILL.md'']
                          (stored_world ''0123456789abc''))) = Some (JsonText (JObj m'))
     \<and> map fst m' = [''skills'', ''version'']
     \<and> map_of m' ''version'' = Some (JNum 1)
     \<and> map_of m' ''skills'' = Some (JObj units')
     \<and> map_of units' ''pdf'' =
          Some (JObj [(''commit_sha'', JStr ''0123456789abc''),
                      (''synced_at'', JStr ''2025-12-31T00:00:00+00:00''),
                      (''files'', JArr [JStr ''SKILL.md''])])
     \<and> map_of units' ''docx'' =
          Some (JObj [(''commit_sha'', JStr ''abcdef1234567''),
                      (''synced_at'', JStr ''2026-01-01T00:00:00+00:00''),
                      (''files'', JArr [JStr ''SKILL.md''])])"
proof -
  let ?w = "stored_world ''0123456789abc''"
  let ?m = "[(''skills'',
         JObj [(''pdf'', JObj [(''commit_sha'', JStr ''0123456789abc''),
                               (''synced_at'', JStr ''2025-12-31T00:00:00+00:00''),
                               (''files'', JArr [JStr ''SKILL.md''])])]),
         (''version'', JNum 1)]"
  have h1: "manifest_file ?w = Some (JsonText (JObj ?m))"
    by (simp add: stored_world_def empty_world_def)
  have h2: "map_of ?m ''skills'' =
     Some (JObj [(''pdf'', JObj [(''commit_sha'', JStr ''0123456789abc''),
                               (''synced_at'', JStr ''2025-12-31T00:00:00+00:00''),
                               (''files'', JArr [JStr ''SKILL.md''])])])"
    by simp
  have h3: "record_sync ''docx'' ''abcdef1234567'' [''SKILL.md''] ?w =
     (fst (record_sync ''docx'' ''abcdef1234567'' [''SKILL.md''] ?w),
      snd (record_sync ''docx'' ''abcdef1234567'' [''SKILL.md''] ?w))"
    by simp
  have nf: "\<not> is_file ?w []" by (simp add: is_file_def stored_world_def empty_world_def)
  have ck: "clock ?w (ticks ?w) = ''2026-01-01T00:00:00+00:00''"
    by (simp add: stored_world_def empty_world_def)
  let ?r = "record_sync ''docx'' ''abcdef1234567'' [''SKILL.md''] ?w"
  from record_sync_frame[OF h1 h2 h3] obtain m' units' where
    a: "manifest_file (snd ?r) = Some (JsonText (JObj m'))"
    and b: "map fst m' = map fst ?m"
    and c: "\<forall>k. k \<noteq> ''skills'' \<longrightarrow> map_of m' k = map_of ?m k"
    and d: "map_of m' ''skills'' = Some (JObj units')"
    and e: "\<forall>k. k \<noteq> ''docx'' \<longrightarrow> map_of units' k =
              map_of [(''pdf'', JObj [(''commit_sha'', JStr ''0123456789abc''),
                               (''synced_at'', JStr ''2025-12-31T00:00:00+00:00''),
                               (''files'', JArr [JStr ''SKILL.md''])])] k"
    and f: "fst ?r = Inr () \<longrightarrow> map_of units' ''docx'' =
                  Some (JObj [(''commit_sha'', JStr ''abcdef1234567''),
                              (''synced_at'', JStr (clock ?w (ticks ?w))),
                              (''files'', JArr (map JStr [''SKILL.md'']))])"
    and g: "\<not> is_file ?w [] \<longrightarrow> fst ?r = Inr ()"
    by blast
  from b have b': "map fst m' = [''skills'', ''version'']" by simp
  from c have c': "map_of m' ''version'' = Some (JNum 1)" by simp
  from e have e': "map_of units' ''pdf'' =
          Some (JObj [(''commit_sha'', JStr ''0123456789abc''),
                      (''synced_at'', JStr ''2025-12-31T00:00:00+00:00''),
                      (''files'', JArr [JStr ''SKILL.md''])])" by simp
  from f g nf ck have f': "map_of units' ''docx'' =
          Some (JObj [(''commit_sha'', JStr ''abcdef1234567''),
                      (''synced_at'', JStr ''2026-01-01T00:00:00+00:00''),
                      (''files'', JArr [JStr ''SKILL.md''])])" by simp
  show ?thesis
    by (rule exI[of _ m'], rule exI[of _ units']) (simp only: a b' c' d e' f' simp_thms)
qed

text \<open>
  Claim C10 (the manifest must hold the key \<^verbatim>\<open>skills\<close>). When the manifest file holds an
  object without the key \<^verbatim>\<open>skills\<close>, \<^verbatim>\<open>record_sync\<close> raises \<^verbatim>\<open>KeyError\<close> for that key and
  the file is not rewritten, while status resolution on the same file returns and gives
  every unit the status \<^verbatim>\<open>new\<close>. A call of \<^verbatim>\<open>record_sync\<close> that succeeds has found either
  no file or an object holding the key.
\<close>

theorem record_sync_needs_skills_key:
  "(manifest_file w = Some (JsonText (JObj m)) \<and> map_of m ''skills'' = None \<longrightarrow>
      fst (record_sync n sha fs w) = Inl (KeyError ''skills'')
      \<and> manifest_file (snd (record_sync n sha fs w)) = manifest_file w
      \<and> get_sync_status w sks sha =
          Inr (map (\<lambda>sk. \<lparr>skill = sk, status = ''new'', local_sha = None,
                          remote_sha = Some (take 7 sha)\<rparr>) sks))
   \<and> (fst (record_sync n sha fs w) = Inr () \<longrightarrow>
        manifest_file w = None
        \<or> (\<exists>m' v. manifest_file w = Some (JsonText (JObj m')) \<and> map_of m' ''skills'' = Some v))"
proof -
  have a: "fst (record_sync n sha fs w) = Inl (KeyError ''skills'')
      \<and> manifest_file (snd (record_sync n sha fs w)) = manifest_file w
      \<and> get_sync_status w sks sha =
          Inr (map (\<lambda>sk. \<lparr>skill = sk, status = ''new'', local_sha = None,
                          remote_sha = Some (take 7 sha)\<rparr>) sks)"
    if f: "manifest_file w = Some (JsonText (JObj m))" and k: "map_of m ''skills'' = None"
  proof -
    have "record_sync n sha fs w = (Inl (KeyError ''skills''), w\<lparr>ticks := Suc (ticks w)\<rparr>)"
      by (simp add: record_sync_def get_manifest_file[OF f] datetime_now_def k)
    moreover have "local_skills w = Inr (JObj [])"
      by (simp add: local_skills_def get_manifest_file[OF f] k)
    moreover have "status_loop (JObj []) sha sks =
          Inr (map (\<lambda>sk. \<lparr>skill = sk, status = ''new'', local_sha = None,
                          remote_sha = Some (take 7 sha)\<rparr>) sks)"
      by (rule status_loop_map) (simp add: unit_status_absent)
    ultimately show ?thesis by (simp add: get_sync_status_def)
  qed
  have b: "manifest_file w = None
        \<or> (\<exists>m' v. manifest_file w = Some (JsonText (JObj m')) \<and> map_of m' ''skills'' = Some v)"
    if "fst (record_sync n sha fs w) = Inr ()"
  proof -
    from that have "record_sync n sha fs w = (Inr (), snd (record_sync n sha fs w))"
      by (metis prod.collapse)
    from record_sync_Inr[OF this] obtain m' units where
      "get_manifest w = Inr (JObj m')" "map_of m' ''skills'' = Some (JObj units)" by blast
    with get_manifest_object_cases[of w m'] show ?thesis by auto
  qed
  from a b show ?thesis by blast
qed

theorem record_sync_needs_skills_key_witness:
  "fst (record_sync ''pdf'' ''abcdef1234567'' [''SKILL.md'']
         (empty_world\<lparr>manifest_file := Some (JsonText (JObj [(''version'', JNum 1)]))\<rparr>))
     = Inl (KeyError ''skills'')
   \<and> get_sync_status
         (empty_world\<lparr>manifest_file := Some (JsonText (JObj [(''version'', JNum 1)]))\<rparr>)
         [pdf, docx] ''abcdef1234567'' =
       Inr [\<lparr>skill = pdf, status = ''new'', local_sha = None, remote_sha = Some ''abcdef1''\<rparr>,
            \<lparr>skill = docx, status = ''new'', local_sha = None, remote_sha = Some ''abcdef1''\<rparr>]
   \<and> fst (record_sync ''pdf'' ''abcdef1234567'' [''SKILL.md'', ''forms.md''] empty_world) = Inr ()
   \<and> manifest_file empty_world = None"
proof -
  let ?w = "empty_world\<lparr>manifest_file := Some (JsonText (JObj [(''version'', JNum 1)]))\<rparr>"
  have h1: "manifest_file ?w = Some (JsonText (JObj [(''version'', JNum 1)]))
            \<and> map_of [(''version'', JNum 1)] ''skills'' = None"
    by simp
  have h2: "manifest_file empty_world = None" by (simp add: empty_world_def)
  have a: "fst (record_sync ''pdf'' ''abcdef1234567'' [''SKILL.md''] ?w) = Inl (KeyError ''skills'')
      \<and> get_sync_status ?w [pdf, docx] ''abcdef1234567'' =
          Inr (map (\<lambda>sk. \<lparr>skill = sk, status = ''new'', local_sha = None,
                          remote_sha = Some (take 7 ''abcdef1234567'')\<rparr>) [pdf, docx])"
    using record_sync_needs_skills_key[of ?w "[(''version'', JNum 1)]" "''pdf''" "''abcdef1234567''"
         "[''SKILL.md'']" "[pdf, docx]"] h1
    by (simp only: simp_thms)
  have b: "manifest_file empty_world = None
        \<or> (\<exists>m' v. manifest_file empty_world = Some (JsonText (JObj m'))
                   \<and> map_of m' ''skills'' = Some v)"
    using record_sync_needs_skills_key[of empty_world "[]" "''pdf''" "''abcdef1234567''"
         "[''SKILL.md'', ''forms.md'']" "[]"] record_sync_empty_world
    by (simp only: simp_thms)
  from a record_sync_empty_world h2 show ?thesis by simp
qed

text \<open>
  Claim C4 (sync, then resolve). After \<^verbatim>\<open>record_sync\<close> has returned, the unit table of the
  manifest holds for the name the entry with the full revision, the time of the call and
  the file list; a table with one entry per name has exactly one entry for it. Status
  resolution at the same revision then gives \<^verbatim>\<open>ok\<close> (unchanged) to the unit and still \<^verbatim>\<open>new\<close>
  to the units that had no entry before.
\<close>

theorem sync_then_resolve:
  assumes "record_sync n sha fs w = (Inr (), w')"
  shows "\<exists>units units'.
           local_skills w = Inr (JObj units) \<and> local_skills w' = Inr (JObj units')
           \<and> map_of units' n =
                Some (JObj [(''commit_sha'', JStr sha),
                            (''synced_at'', JStr (clock w (ticks w))),
                            (''files'', JArr (map JStr fs))])
           \<and> (distinct (map fst units) \<longrightarrow>
                 distinct (map fst units') \<and> length (filter (\<lambda>p. fst p = n) units') = 1)
           \<and> (units = [] \<longrightarrow> map fst units' = [n])
           \<and> (\<forall>sks. (\<forall>sk\<in>set sks. name sk = n \<or> map_of units (name sk) = None) \<longrightarrow>
                 get_sync_status w' sks sha =
                   Inr (map (\<lambda>sk. if name sk = n
                                  then \<lparr>skill = sk, status = ''ok'',
                                        local_sha = Some (JStr (take 7 sha)),
                                        remote_sha = Some (take 7 sha)\<rparr>
                                  else \<lparr>skill = sk, status = ''new'', local_sha = None,
                                        remote_sha = Some (take 7 sha)\<rparr>) sks))"
proof -
  let ?entry = "[(''commit_sha'', JStr sha), (''synced_at'', JStr (clock w (ticks w))),
                 (''files'', JArr (map JStr fs))]"
  from record_sync_Inr[OF assms] obtain m units where
    gm: "get_manifest w = Inr (JObj m)" and mk: "map_of m ''skills'' = Some (JObj units)"
    and wfile: "manifest_file w' =
      Some (JsonText (JObj (AList.update ''skills'' (JObj (AList.update n (JObj ?entry) units)) m)))"
    by blast
  let ?units' = "AList.update n (JObj ?entry) units"
  have ls: "local_skills w = Inr (JObj units)"
    using gm mk by (rule local_skills_object)
  have ls': "local_skills w' = Inr (JObj ?units')"
    by (rule local_skills_object[OF get_manifest_file[OF wfile]]) (simp add: update_conv')
  have ent: "map_of ?units' n = Some (JObj ?entry)"
    by (simp add: update_conv')
  have one: "distinct (map fst units) \<longrightarrow>
      distinct (map fst ?units') \<and> length (filter (\<lambda>p. fst p = n) ?units') = 1"
  proof
    assume "distinct (map fst units)"
    then have d: "distinct (map fst ?units')" by (rule distinct_update)
    moreover have "n \<in> fst ` set ?units'" by (simp add: dom_update)
    ultimately show "distinct (map fst ?units') \<and> length (filter (\<lambda>p. fst p = n) ?units') = 1"
      by (simp add: single_key)
  qed
  have res0: "get_sync_status w' sks sha =
                   Inr (map (\<lambda>sk. if name sk = n
                                  then \<lparr>skill = sk, status = ''ok'',
                                        local_sha = Some (JStr (take 7 sha)),
                                        remote_sha = Some (take 7 sha)\<rparr>
                                  else \<lparr>skill = sk, status = ''new'', local_sha = None,
                                        remote_sha = Some (take 7 sha)\<rparr>) sks)"
    if h: "\<forall>sk\<in>set sks. name sk = n \<or> map_of units (name sk) = None" for sks
  proof -
    have "unit_status (JObj ?units') sha sk =
            Inr (if name sk = n
                 then \<lparr>skill = sk, status = ''ok'', local_sha = Some (JStr (take 7 sha)),
                       remote_sha = Some (take 7 sha)\<rparr>
                 else \<lparr>skill = sk, status = ''new'', local_sha = None,
                       remote_sha = Some (take 7 sha)\<rparr>)"
      if "sk \<in> set sks" for sk
    proof (cases "name sk = n")
      case True
      have "map_of ?units' (name sk) = Some (JObj ?entry)" using True ent by simp
      moreover have "dict_get (JObj ?entry) ''commit_sha'' (JStr '''') = Inr (JStr sha)" by simp
      ultimately have "unit_status (JObj ?units') sha sk =
          Inr (if take 7 sha = take 7 sha
          then \<lparr>skill = sk, status = ''ok'', local_sha = Some (JStr (take 7 sha)),
                remote_sha = Some (take 7 sha)\<rparr>
          else \<lparr>skill = sk, status = ''update'',
                local_sha = (if sha = [] then None else Some (JStr (take 7 sha))),
                remote_sha = Some (take 7 sha)\<rparr>)"
        by (rule unit_status_stored)
      with True show ?thesis by simp
    next
      case False
      with h[rule_format, OF that] have "map_of units (name sk) = None" by simp
      with False have "map_of ?units' (name sk) = None" by (simp add: update_conv')
      from unit_status_absent[OF this] False show ?thesis by simp
    qed
    then have "status_loop (JObj ?units') sha sks =
                   Inr (map (\<lambda>sk. if name sk = n
                                  then \<lparr>skill = sk, status = ''ok'',
                                        local_sha = Some (JStr (take 7 sha)),
                                        remote_sha = Some (take 7 sha)\<rparr>
                                  else \<lparr>skill = sk, status = ''new'', local_sha = None,
                                        remote_sha = Some (take 7 sha)\<rparr>) sks)"
      by (intro status_loop_map ballI)
    then show ?thesis by (simp only: get_sync_status_def ls' sum.case)
  qed
  have res: "\<forall>sks. (\<forall>sk\<in>set sks. name sk = n \<or> map_of units (name sk) = None) \<longrightarrow>
                 get_sync_status w' sks sha =
                   Inr (map (\<lambda>sk. if name sk = n
                                  then \<lparr>skill = sk, status = ''ok'',
                                        local_sha = Some (JStr (take 7 sha)),
                                        remote_sha = Some (take 7 sha)\<rparr>
                                  else \<lparr>skill = sk, status = ''new'', local_sha = None,
                                        remote_sha = Some (take 7 sha)\<rparr>) sks)"
    using res0 by (intro allI impI)
  have emp: "units = [] \<longrightarrow> map fst ?units' = [n]" by simp
  show ?thesis
    by (rule exI[of _ units], rule exI[of _ ?units'], intro conjI)
       (fact ls ls' ent one emp res)+
qed

theorem sync_then_resolve_witness:
  "\<exists>w'. record_sync ''pdf'' ''abcdef1234567'' [''SKILL.md'', ''forms.md''] empty_world = (Inr (), w')
     \<and> get_sync_status w' [pdf, docx] ''abcdef1234567'' =
         Inr [\<lparr>skill = pdf, status = ''ok'', local_sha = Some (JStr ''abcdef1''),
               remote_sha = Some ''abcdef1''\<rparr>,
              \<lparr>skill = docx, status = ''new'', local_sha = None,
               remote_sha = Some ''abcdef1''\<rparr>]"
proof -
  let ?w' = "snd (record_sync ''pdf'' ''abcdef1234567'' [''SKILL.md'', ''forms.md''] empty_world)"
  have h: "record_sync ''pdf'' ''abcdef1234567'' [''SKILL.md'', ''forms.md''] empty_world
             = (Inr (), ?w')"
    by (rule prod_eqI) (simp_all add: record_sync_empty_world)
  have ls: "local_skills empty_world = Inr (JObj [])"
    by (simp add: local_skills_def get_manifest_def empty_world_def)
  from sync_then_resolve[OF h] show ?thesis
  proof (elim exE conjE)
    fix units units'
    assume u: "local_skills empty_world = Inr (JObj units)"
      and r: "\<forall>sks. (\<forall>sk\<in>set sks. name sk = ''pdf'' \<or> map_of units (name sk) = None) \<longrightarrow>
                 get_sync_status ?w' sks ''abcdef1234567'' =
                   Inr (map (\<lambda>sk. if name sk = ''pdf''
                                  then \<lparr>skill = sk, status = ''ok'',
                                        local_sha = Some (JStr (take 7 ''abcdef1234567'')),
                                        remote_sha = Some (take 7 ''abcdef1234567'')\<rparr>
                                  else \<lparr>skill = sk, status = ''new'', local_sha = None,
                                        remote_sha = Some (take 7 ''abcdef1234567'')\<rparr>) sks)"
    from u ls have "units = []" by simp
    with r[rule_format, of "[pdf, docx]"]
    have g: "get_sync_status ?w' [pdf, docx] ''abcdef1234567'' =
         Inr [\<lparr>skill = pdf, status = ''ok'', local_sha = Some (JStr ''abcdef1''),
               remote_sha = Some ''abcdef1''\<rparr>,
              \<lparr>skill = docx, status = ''new'', local_sha = None,
               remote_sha = Some ''abcdef1''\<rparr>]"
      by (simp add: pdf_def docx_def)
    show ?thesis
      by (rule exI[of _ ?w'], rule conjI, rule h, rule g)
  qed
qed

section \<open>The download walk\<close>

lemma download_walk:
  "download_directory r t fs w = (Inr fs', w') \<longrightarrow>
      (\<exists>items. r = Inr items \<and> fs' = fs @ leaf_names items)"
  "download_items its t fs w = (Inr fs', w') \<longrightarrow> fs' = fs @ leaf_names its"
proof (induction r t fs w and its t fs w arbitrary: fs' w' and fs' w'
       rule: download_directory_download_items.induct)
  case (1 e target_dir fs w)
  then show ?case by simp
next
  case (2 items target_dir fs w)
  then show ?case by (auto split: prod.splits sum.splits)
next
  case (3 target_dir fs w)
  then show ?case by simp
next
  case (4 n fetched rest target_dir fs w)
  then show ?case by (auto split: prod.splits sum.splits)
next
  case (5 n sub rest target_dir fs w)
  then show ?case by (fastforce split: prod.splits sum.splits)
next
  case (6 n rest target_dir fs w)
  then show ?case by simp
qed

text \<open>
  Claim C3, amended (walk order of the download). The walk is depth first and follows each
  directory listing in the order of its items: a file is downloaded and its leaf name
  appended where its item stands, a directory is entered where its item stands, before
  the later files of the same level; nothing is sorted. A download that returns gives the
  leaf name of every file of the subtree in that order.
\<close>

theorem download_walk_order:
  assumes "download_skill gh n target w = (Inr fs, w')"
  shows "\<exists>items. contents gh n = Inr items \<and> fs = leaf_names items"
  using assms download_walk(1)[of "contents gh n" target "[]" w fs w']
  by (simp add: download_skill_def)

lemma download_pdf:
  "fst (download_skill pdf_remote ''pdf'' [''pdf''] empty_world)
     = Inr [''SKILL.md'', ''run.py'', ''template.md'']"
  by (simp add: download_skill_def pdf_remote_def pdf_items_def empty_world_def mkdir_p_def
        is_file_def download_file_def write_bytes_def)

theorem download_walk_order_witness:
  "fst (download_skill pdf_remote ''pdf'' [''pdf''] empty_world)
     = Inr [''SKILL.md'', ''run.py'', ''template.md'']
   \<and> leaf_names pdf_items = [''SKILL.md'', ''run.py'', ''template.md'']"
proof -
  let ?r = "download_skill pdf_remote ''pdf'' [''pdf''] empty_world"
  have h: "?r = (Inr [''SKILL.md'', ''run.py'', ''template.md''], snd ?r)"
    by (rule prod_eqI) (simp_all add: download_pdf)
  from download_walk_order[OF h]
  have "leaf_names pdf_items = [''SKILL.md'', ''run.py'', ''template.md'']"
    by (simp add: pdf_remote_def)
  with download_pdf show ?thesis by (intro conjI)
qed

text \<open>Claim C3 as stated fails: the file \<^verbatim>\<open>template.md\<close> of the top level is downloaded
  after the walk has descended into \<^verbatim>\<open>scripts\<close>, while files before directories would
  return it before \<^verbatim>\<open>run.py\<close>.\<close>

theorem files_before_dirs_counterexample:
  "fst (download_skill pdf_remote ''pdf'' [''pdf''] empty_world)
     = Inr [''SKILL.md'', ''run.py'', ''template.md'']
   \<and> spec_files_first pdf_items = [''SKILL.md'', ''template.md'', ''run.py'']
   \<and> fst (download_skill pdf_remote ''pdf'' [''pdf''] empty_world)
        \<noteq> Inr (spec_files_first pdf_items)"
  by (simp add: download_skill_def pdf_remote_def pdf_items_def empty_world_def mkdir_p_def
        is_file_def download_file_def write_bytes_def)

section \<open>The sync cycle and the manifest\<close>

lemma keeps_manifest_refl: "keeps_manifest w w"
  by (simp add: keeps_manifest_def)

lemma keeps_manifest_trans:
  "keeps_manifest w w1 \<Longrightarrow> keeps_manifest w1 w2 \<Longrightarrow> keeps_manifest w w2"
  by (simp add: keeps_manifest_def)

lemma mkdir_p_keeps: "mkdir_p p w = (r, w') \<Longrightarrow> keeps_manifest w w'"
  by (auto simp: mkdir_p_def keeps_manifest_def split: if_splits)

lemma rmtree_keeps: "rmtree p w = (r, w') \<Longrightarrow> keeps_manifest w w'"
  by (auto simp: rmtree_def keeps_manifest_def split: option.splits node.splits)

lemma write_bytes_keeps: "write_bytes p c w = (r, w') \<Longrightarrow> keeps_manifest w w'"
  by (auto simp: write_bytes_def keeps_manifest_def split: if_splits)

lemma download_file_keeps: "download_file f n t w = (r, w') \<Longrightarrow> keeps_manifest w w'"
  by (cases f) (auto simp: download_file_def keeps_manifest_refl dest: write_bytes_keeps)

lemma download_keeps:
  "download_directory rs t fs w = (r, w') \<longrightarrow> keeps_manifest w w'"
  "download_items its t fs w = (r, w') \<longrightarrow> keeps_manifest w w'"
proof (induction rs t fs w and its t fs w arbitrary: r w' and r w'
       rule: download_directory_download_items.induct)
  case (1 e target_dir fs w)
  then show ?case by (simp add: keeps_manifest_refl)
next
  case (2 items target_dir fs w)
  show ?case
  proof (cases "mkdir_p target_dir w")
    case (Pair a w1)
    note m = mkdir_p_keeps[OF Pair]
    show ?thesis
    proof (cases a)
      case (Inl e)
      with Pair m show ?thesis by auto
    next
      case (Inr b)
      have "download_directory (Inr items) target_dir fs w = download_items items target_dir fs w1"
        using Pair Inr by simp
      with 2[OF Pair[symmetric] Inr, of r w'] m show ?thesis
        by (auto intro: keeps_manifest_trans)
    qed
  qed
next
  case (3 target_dir fs w)
  then show ?case by (simp add: keeps_manifest_refl)
next
  case (4 n fetched rest target_dir fs w)
  show ?case
  proof (cases "download_file fetched n target_dir w")
    case (Pair a w1)
    note m = download_file_keeps[OF Pair]
    show ?thesis
    proof (cases a)
      case (Inl e)
      with Pair m show ?thesis by auto
    next
      case (Inr b)
      have "download_items (FileItem n fetched # rest) target_dir fs w =
              download_items rest target_dir (fs @ [n]) w1"
        using Pair Inr by simp
      with 4[OF Pair[symmetric] Inr, of r w'] m show ?thesis
        by (auto intro: keeps_manifest_trans)
    qed
  qed
next
  case (5 n sub rest target_dir fs w)
  show ?case
  proof (cases "download_directory sub (target_dir @ [n]) fs w")
    case (Pair a w1)
    from 5(1)[of a w1] Pair have m: "keeps_manifest w w1" by simp
    show ?thesis
    proof (cases a)
      case (Inl e)
      with Pair m show ?thesis by auto
    next
      case (Inr b)
      have "download_items (DirItem n sub # rest) target_dir fs w =
              download_items rest target_dir b w1"
        using Pair Inr by simp
      with 5(2)[OF Pair[symmetric] Inr, of r w'] m show ?thesis
        by (auto intro: keeps_manifest_trans)
    qed
  qed
next
  case (6 n rest target_dir fs w)
  then show ?case by simp
qed

lemma manifest_entry_cong:
  "manifest_file w' = manifest_file w \<Longrightarrow> manifest_entry w' = manifest_entry w"
  by (simp add: manifest_entry_def local_skills_def get_manifest_def fun_eq_iff)

lemma same_outside_refl: "same_outside t w w"
  by (simp add: same_outside_def)

lemma same_outside_trans:
  "same_outside t w w1 \<Longrightarrow> same_outside t w1 w2 \<Longrightarrow> same_outside t w w2"
  by (simp add: same_outside_def)

lemma same_outside_deeper: "same_outside (t @ [c]) w w' \<Longrightarrow> same_outside t w w'"
  unfolding same_outside_def
proof (intro allI impI)
  fix q
  assume h: "\<forall>q. \<not> prefix (t @ [c]) q \<and> \<not> prefix q (t @ [c]) \<longrightarrow> nodes w' q = nodes w q"
    and q: "\<not> prefix t q \<and> \<not> prefix q t"
  have "\<not> prefix (t @ [c]) q"
    using q by (meson prefix_order.trans prefixI)
  moreover have "\<not> prefix q (t @ [c])"
    using q by (auto simp: prefix_snoc)
  ultimately show "nodes w' q = nodes w q" using h by blast
qed

lemma mkdir_p_outside: "mkdir_p t w = (r, w') \<Longrightarrow> same_outside t w w'"
  by (auto simp: mkdir_p_def same_outside_def split: if_splits)

lemma rmtree_outside: "rmtree t w = (r, w') \<Longrightarrow> same_outside t w w'"
  by (auto simp: rmtree_def same_outside_def split: option.splits node.splits)

lemma write_bytes_outside: "write_bytes (t @ [n]) c w = (r, w') \<Longrightarrow> same_outside t w w'"
  by (auto simp: write_bytes_def same_outside_def split: if_splits)

lemma download_file_outside: "download_file f n t w = (r, w') \<Longrightarrow> same_outside t w w'"
  by (cases f) (auto simp: download_file_def same_outside_refl dest: write_bytes_outside)

lemma download_outside:
  "download_directory rs t fs w = (r, w') \<longrightarrow> same_outside t w w'"
  "download_items its t fs w = (r, w') \<longrightarrow> same_outside t w w'"
proof (induction rs t fs w and its t fs w arbitrary: r w' and r w'
       rule: download_directory_download_items.induct)
  case (1 e target_dir fs w)
  then show ?case by (simp add: same_outside_refl)
next
  case (2 items target_dir fs w)
  show ?case
  proof (cases "mkdir_p target_dir w")
    case (Pair a w1)
    note m = mkdir_p_outside[OF Pair]
    show ?thesis
    proof (cases a)
      case (Inl e)
      with Pair m show ?thesis by auto
    next
      case (Inr b)
      have "download_directory (Inr items) target_dir fs w = download_items items target_dir fs w1"
        using Pair Inr by simp
      with 2[OF Pair[symmetric] Inr, of r w'] m show ?thesis
        by (auto intro: same_outside_trans)
    qed
  qed
next
  case (3 target_dir fs w)
  then show ?case by (simp add: same_outside_refl)
next
  case (4 n fetched rest target_dir fs w)
  show ?case
  proof (cases "download_file fetched n target_dir w")
    case (Pair a w1)
    note m = download_file_outside[OF Pair]
    show ?thesis
    proof (cases a)
      case (Inl e)
      with Pair m show ?thesis by auto
    next
      case (Inr b)
      have "download_items (FileItem n fetched # rest) target_dir fs w =
              download_items rest target_dir (fs @ [n]) w1"
        using Pair Inr by simp
      with 4[OF Pair[symmetric] Inr, of r w'] m show ?thesis
        by (auto intro: same_outside_trans)
    qed
  qed
next
  case (5 n sub rest target_dir fs w)
  show ?case
  proof (cases "download_directory sub (target_dir @ [n]) fs w")
    case (Pair a w1)
    from 5(1)[of a w1] Pair have "same_outside (target_dir @ [n]) w w1" by simp
    then have m: "same_outside target_dir w w1" by (rule same_outside_deeper)
    show ?thesis
    proof (cases a)
      case (Inl e)
      with Pair m show ?thesis by auto
    next
      case (Inr b)
      have "download_items (DirItem n sub # rest) target_dir fs w =
              download_items rest target_dir b w1"
        using Pair Inr by simp
      with 5(2)[OF Pair[symmetric] Inr, of r w'] m show ?thesis
        by (auto intro: same_outside_trans)
    qed
  qed
next
  case (6 n rest target_dir fs w)
  then show ?case by simp
qed

text \<open>\<^verbatim>\<open>record_sync\<close> touches no node but \<^verbatim>\<open>skills_dir\<close> itself.\<close>

lemma record_sync_nodes:
  "record_sync n sha fs w = (r, w') \<Longrightarrow> q \<noteq> [] \<Longrightarrow> nodes w' q = nodes w q"
  by (auto simp: record_sync_def datetime_now_def save_manifest_def mkdir_p_def
      split: sum.splits prod.splits if_splits)
text \<open>The three ways a cycle for a name that is a single path component can end: the
  removal raises, the download raises, or \<^verbatim>\<open>record_sync\<close> is reached.\<close>

lemma sync_cycle_cases:
  assumes "plain_name n" and "sync_cycle esc gh sha n w = (r, w')"
  obtains
    (removal) e where "path_exists w [n]" "rmtree [n] w = (Inl e, w')" "r = Inl e"
  | (downloading) w1 e where
      "(if path_exists w [n] then rmtree [n] w else (Inr (), w)) = (Inr (), w1)"
      "download_skill gh n [n] w1 = (Inl e, w')" "r = Inl e"
  | (recording) w1 fs w2 r3 where
      "(if path_exists w [n] then rmtree [n] w else (Inr (), w)) = (Inr (), w1)"
      "download_skill gh n [n] w1 = (Inr fs, w2)"
      "record_sync n sha fs w2 = (r3, w')"
      "r = (case r3 of Inl e \<Rightarrow> Inl e | Inr u \<Rightarrow> Inr fs)"
proof -
  obtain r1 w1 where s1: "(if path_exists w [n] then rmtree [n] w else (Inr (), w)) = (r1, w1)"
    by (cases "if path_exists w [n] then rmtree [n] w else (Inr (), w)")
  show thesis
  proof (cases r1)
    case (Inl e)
    with s1 have ex: "path_exists w [n]" and rm: "rmtree [n] w = (Inl e, w1)"
      by (simp_all split: if_splits)
    from assms ex rm have "r = Inl e" "w' = w1" by (simp_all add: sync_cycle_def)
    with ex rm show thesis by (intro removal[of e]) simp_all
  next
    case (Inr u)
    with s1 have s1': "(if path_exists w [n] then rmtree [n] w else (Inr (), w)) = (Inr (), w1)"
      by simp
    obtain r2 w2 where s2: "download_skill gh n [n] w1 = (r2, w2)"
      by (cases "download_skill gh n [n] w1")
    show thesis
    proof (cases r2)
      case (Inl e)
      from assms(2) have "r = Inl e" "w' = w2"
        unfolding sync_cycle_def using assms(1) s1' s2 Inl by simp_all
      with s1' s2 Inl show thesis by (intro downloading[of w1 e]) simp_all
    next
      case r2: (Inr fs)
      obtain r3 w3 where s3: "record_sync n sha fs w2 = (r3, w3)"
        by (cases "record_sync n sha fs w2")
      from assms(2) have "r = (case r3 of Inl e \<Rightarrow> Inl e | Inr u \<Rightarrow> Inr fs)" "w' = w3"
        unfolding sync_cycle_def using assms(1) s1' s2 r2 s3 by (simp_all split: sum.splits)
      with s1' s2 r2 s3 show thesis by (intro recording[of w1 fs w2 r3]) simp_all
    qed
  qed
qed

lemma removal_keeps:
  assumes "(if path_exists w [n] then rmtree [n] w else (Inr (), w)) = (r1, w1)"
  shows "keeps_manifest w w1" and "same_outside [n] w w1"
proof -
  show "keeps_manifest w w1"
  proof (cases "path_exists w [n]")
    case True
    with assms show ?thesis by (simp add: rmtree_keeps)
  next
    case False
    with assms show ?thesis by (simp add: keeps_manifest_refl)
  qed
  show "same_outside [n] w w1"
  proof (cases "path_exists w [n]")
    case True
    with assms show ?thesis by (simp add: rmtree_outside)
  next
    case False
    with assms show ?thesis by (simp add: same_outside_refl)
  qed
qed

lemma download_skill_keeps:
  assumes "download_skill gh n t w = (r, w')"
  shows "keeps_manifest w w'" and "same_outside t w w'"
  using assms download_keeps(1) download_outside(1) by (simp_all add: download_skill_def)
text \<open>A cycle that raises leaves the manifest file as it was.\<close>

lemma sync_cycle_Inl:
  assumes "plain_name n" and "sync_cycle esc gh sha n w = (Inl e, w')"
  shows "manifest_file w' = manifest_file w"
  using assms
proof (cases rule: sync_cycle_cases)
  case (removal e1)
  from rmtree_keeps[OF removal(2)] show ?thesis by (simp add: keeps_manifest_def)
next
  case (downloading w1 e1)
  from removal_keeps(1)[OF downloading(1)] download_skill_keeps(1)[OF downloading(2)]
  show ?thesis by (simp add: keeps_manifest_def)
next
  case (recording w1 fs w2 r3)
  from recording(4) obtain e3 where "r3 = Inl e3" by (cases r3) auto
  with recording(3) have "manifest_file w' = manifest_file w2" by (simp add: record_sync_Inl)
  with removal_keeps(1)[OF recording(1)] download_skill_keeps(1)[OF recording(2)]
  show ?thesis by (simp add: keeps_manifest_def)
qed

text \<open>A cycle that returns has downloaded the listing of the unit and recorded it: the
  entry of the unit holds the revision, the time of the start and the leaf names of the
  listing, and the entry of every other name is as it was.\<close>

lemma sync_cycle_entries:
  assumes "plain_name n" and "sync_cycle esc gh sha n w = (Inr fs, w')"
  shows "(\<exists>items. contents gh n = Inr items \<and> fs = leaf_names items)
         \<and> manifest_entry w' n =
           Some (JObj [(''commit_sha'', JStr sha), (''synced_at'', JStr (clock w (ticks w))),
                       (''files'', JArr (map JStr fs))])
         \<and> (\<forall>k. k \<noteq> n \<longrightarrow> manifest_entry w' k = manifest_entry w k)"
  using assms
proof (cases rule: sync_cycle_cases)
  case (removal e1)
  then show ?thesis by simp
next
  case (downloading w1 e1)
  then show ?thesis by simp
next
  case (recording w1 fs' w2 r3)
  from recording(4) have r3: "r3 = Inr ()" and fs: "fs' = fs" by (cases r3; simp)+
  from recording(3) r3 fs have rs: "record_sync n sha fs w2 = (Inr (), w')" by simp
  from recording(2) fs download_walk(1)[of "contents gh n" "[n]" "[]" w1 fs w2]
  have it: "\<exists>items. contents gh n = Inr items \<and> fs = leaf_names items"
    by (simp add: download_skill_def)
  from removal_keeps(1)[OF recording(1)] download_skill_keeps(1)[OF recording(2)]
  have m2: "manifest_file w2 = manifest_file w"
    and c2: "clock w2 = clock w" "ticks w2 = ticks w"
    by (simp_all add: keeps_manifest_def)
  let ?entry = "JObj [(''commit_sha'', JStr sha), (''synced_at'', JStr (clock w2 (ticks w2))),
                       (''files'', JArr (map JStr fs))]"
  from record_sync_Inr[OF rs] obtain m units where
    gm: "get_manifest w2 = Inr (JObj m)" and mk: "map_of m ''skills'' = Some (JObj units)"
    and wfile: "manifest_file w' =
      Some (JsonText (JObj (AList.update ''skills'' (JObj (AList.update n ?entry units)) m)))"
    by blast
  have ls2: "local_skills w2 = Inr (JObj units)"
    using gm mk by (rule local_skills_object)
  have ls': "local_skills w' = Inr (JObj (AList.update n ?entry units))"
    by (rule local_skills_object[OF get_manifest_file[OF wfile]]) (simp add: update_conv')
  have "manifest_entry w2 = manifest_entry w" using m2 by (rule manifest_entry_cong)
  then have "manifest_entry w k = map_of units k" for k
    using ls2 by (simp add: manifest_entry_def fun_eq_iff)
  with ls' c2 it show ?thesis by (simp add: manifest_entry_def update_conv')
qed

text \<open>A cycle touches the local tree only at \<^verbatim>\<open>skills_dir\<close> itself and in the directory of
  its unit.\<close>

lemma outside_unit:
  assumes "same_outside [n] w w'" and "q \<noteq> []" and "\<not> prefix [n] q"
  shows "nodes w' q = nodes w q"
proof -
  have "\<not> prefix q [n]" using assms(2,3) by (cases q) auto
  with assms(1,3) show ?thesis by (simp add: same_outside_def)
qed

lemma sync_cycle_nodes:
  assumes "plain_name n" and "sync_cycle esc gh sha n w = (r, w')"
    and "q \<noteq> []" and "\<not> prefix [n] q"
  shows "nodes w' q = nodes w q"
  using assms(1,2)
proof (cases rule: sync_cycle_cases)
  case (removal e1)
  from rmtree_outside[OF removal(2)] assms(3,4) show ?thesis by (rule outside_unit)
next
  case (downloading w1 e1)
  from removal_keeps(2)[OF downloading(1)] assms(3,4)
  have "nodes w1 q = nodes w q" by (rule outside_unit)
  moreover from download_skill_keeps(2)[OF downloading(2)] assms(3,4)
  have "nodes w' q = nodes w1 q" by (rule outside_unit)
  ultimately show ?thesis by simp
next
  case (recording w1 fs w2 r3)
  from removal_keeps(2)[OF recording(1)] assms(3,4)
  have "nodes w1 q = nodes w q" by (rule outside_unit)
  moreover from download_skill_keeps(2)[OF recording(2)] assms(3,4)
  have "nodes w2 q = nodes w1 q" by (rule outside_unit)
  moreover from record_sync_nodes[OF recording(3) assms(3)]
  have "nodes w' q = nodes w2 q" .
  ultimately show ?thesis by simp
qed

text \<open>A cycle raises only the error that its removal, its download or its recording has
  raised, each step run on the world the step before it has left.\<close>

lemma sync_cycle_cause:
  assumes "plain_name n" and "sync_cycle esc gh sha n w = (Inl e, w')"
  shows "(path_exists w [n] \<and> fst (rmtree [n] w) = Inl e)
       \<or> ((path_exists w [n] \<longrightarrow> fst (rmtree [n] w) = Inr ())
          \<and> fst (download_skill gh n [n]
                  (if path_exists w [n] then snd (rmtree [n] w) else w)) = Inl e)
       \<or> ((path_exists w [n] \<longrightarrow> fst (rmtree [n] w) = Inr ())
          \<and> (\<exists>fs. fst (download_skill gh n [n]
                          (if path_exists w [n] then snd (rmtree [n] w) else w)) = Inr fs
                 \<and> fst (record_sync n sha fs
                          (snd (download_skill gh n [n]
                             (if path_exists w [n] then snd (rmtree [n] w) else w)))) = Inl e))"
  using assms
proof (cases rule: sync_cycle_cases)
  case (removal e1)
  then show ?thesis by simp
next
  case (downloading w1 e1)
  from downloading(1)
  have "(path_exists w [n] \<longrightarrow> fst (rmtree [n] w) = Inr ())
        \<and> (if path_exists w [n] then snd (rmtree [n] w) else w) = w1"
    by (auto split: if_splits)
  with downloading(2,3) show ?thesis by simp
next
  case (recording w1 fs w2 r3)
  from recording(1)
  have a: "(path_exists w [n] \<longrightarrow> fst (rmtree [n] w) = Inr ())
        \<and> (if path_exists w [n] then snd (rmtree [n] w) else w) = w1"
    by (auto split: if_splits)
  from recording(4) have "r3 = Inl e" by (cases r3) auto
  with recording(2,3) a show ?thesis by simp
qed
section \<open>The batch\<close>

lemma succeeded_Cons:
  "succeeded (n # ns) (r # rs) = (if isl r then succeeded ns rs else n # succeeded ns rs)"
  by (simp add: succeeded_def)

text \<open>The loop of the worker is the chain of the cycles of its units: \<open>rs\<close> holds the outcome
  of each cycle and \<open>ws\<close> the world each cycle has left, on which the next one starts.\<close>

lemma sync_loop_trace:
  assumes "sync_loop esc gh sha tot i batch synced w = (ms, synced', w')"
  shows "\<exists>rs ws. length rs = length batch \<and> length ws = length batch
      \<and> (\<forall>j<length batch.
            sync_cycle esc gh sha (map (name \<circ> skill) batch ! j) ((w # ws) ! j) = (rs ! j, ws ! j))
      \<and> w' = last (w # ws)
      \<and> ms = concat (map (unit_msgs tot)
                 (zip [i..<i + length batch] (zip (map (name \<circ> skill) batch) rs)))
      \<and> synced' = synced @ succeeded (map (name \<circ> skill) batch) rs"
  using assms
proof (induction batch arbitrary: i synced w ms synced' w')
  case Nil
  then show ?case by (simp add: succeeded_def)
next
  case (Cons st rest)
  let ?n = "name (skill st)"
  obtain r w1 where cyc: "sync_cycle esc gh sha ?n w = (r, w1)"
    by (cases "sync_cycle esc gh sha ?n w")
  let ?synced1 = "if isl r then synced else synced @ [?n]"
  obtain ms1 s1 w2 where rest:
    "sync_loop esc gh sha tot (Suc i) rest ?synced1 w1 = (ms1, s1, w2)"
    by (cases "sync_loop esc gh sha tot (Suc i) rest ?synced1 w1")
  from Cons.prems cyc rest
  have eq: "ms = unit_msgs tot (i, ?n, r) @ ms1" "synced' = s1" "w' = w2"
    by (cases r; simp add: unit_msgs_def)+
  from Cons.IH[OF rest] obtain rs ws where
    l: "length rs = length rest" "length ws = length rest"
    and ch: "\<forall>j<length rest.
            sync_cycle esc gh sha (map (name \<circ> skill) rest ! j) ((w1 # ws) ! j) = (rs ! j, ws ! j)"
    and la: "w2 = last (w1 # ws)"
    and m: "ms1 = concat (map (unit_msgs tot)
                 (zip [Suc i..<Suc i + length rest] (zip (map (name \<circ> skill) rest) rs)))"
    and s: "s1 = ?synced1 @ succeeded (map (name \<circ> skill) rest) rs"
    by blast
  have 1: "length (r # rs) = length (st # rest)" "length (w1 # ws) = length (st # rest)"
    using l by simp_all
  have 2: "\<forall>j<length (st # rest).
            sync_cycle esc gh sha (map (name \<circ> skill) (st # rest) ! j) ((w # w1 # ws) ! j)
              = ((r # rs) ! j, (w1 # ws) ! j)"
  proof (intro allI impI)
    fix j assume j: "j < length (st # rest)"
    show "sync_cycle esc gh sha (map (name \<circ> skill) (st # rest) ! j) ((w # w1 # ws) ! j)
              = ((r # rs) ! j, (w1 # ws) ! j)"
    proof (cases j)
      case 0
      with cyc show ?thesis by simp
    next
      case (Suc k)
      with j ch show ?thesis by simp
    qed
  qed
  have 3: "w' = last (w # w1 # ws)" using la eq by simp
  have "[i..<i + length (st # rest)] = i # [Suc i..<Suc i + length rest]"
    by (subst upt_rec) simp
  then have 4: "ms = concat (map (unit_msgs tot)
                 (zip [i..<i + length (st # rest)]
                      (zip (map (name \<circ> skill) (st # rest)) (r # rs))))"
    using m eq by simp
  have 5: "synced' = synced @ succeeded (map (name \<circ> skill) (st # rest)) (r # rs)"
    using s eq by (simp add: succeeded_Cons)
  from 1 2 3 4 5 show ?case
    by (intro exI[of _ "r # rs"] exI[of _ "w1 # ws"] conjI)
qed

text \<open>What a chain of cycles of single-component names does to the manifest and to the
  local tree.\<close>

lemma chain_effects:
  assumes "length rs = length ns" "length ws = length ns"
    and "\<forall>j<length ns. sync_cycle esc gh sha (ns ! j) ((w # ws) ! j) = (rs ! j, ws ! j)"
    and "\<forall>n\<in>set ns. plain_name n"
  shows "(\<forall>j<length ns. \<not> isl (rs ! j) \<longrightarrow>
            (\<exists>t items. contents gh (ns ! j) = Inr items
               \<and> manifest_entry (last (w # ws)) (ns ! j) =
                   Some (JObj [(''commit_sha'', JStr sha), (''synced_at'', JStr t),
                               (''files'', JArr (map JStr (leaf_names items)))])))
       \<and> (\<forall>m. (\<forall>j<length ns. ns ! j = m \<longrightarrow> isl (rs ! j)) \<longrightarrow>
              manifest_entry (last (w # ws)) m = manifest_entry w m)
       \<and> (\<forall>m q. m \<notin> set ns \<longrightarrow> nodes (last (w # ws)) (m # q) = nodes w (m # q))"
  using assms
proof (induction ns arbitrary: rs ws w)
  case Nil
  then show ?case by simp
next
  case (Cons n ns)
  from Cons.prems(1,2) obtain r rs' w1 ws' where
    rs: "rs = r # rs'" and ws: "ws = w1 # ws'"
    and l: "length rs' = length ns" "length ws' = length ns"
    by (cases rs; cases ws) auto
  from Cons.prems(3)[rule_format, of 0] rs ws
  have cyc: "sync_cycle esc gh sha n w = (r, w1)" by simp
  have ch: "\<forall>j<length ns. sync_cycle esc gh sha (ns ! j) ((w1 # ws') ! j) = (rs' ! j, ws' ! j)"
  proof (intro allI impI)
    fix j assume "j < length ns"
    with Cons.prems(3)[rule_format, of "Suc j"] rs ws
    show "sync_cycle esc gh sha (ns ! j) ((w1 # ws') ! j) = (rs' ! j, ws' ! j)" by simp
  qed
  from Cons.prems(4) have pn: "plain_name n" and pns: "\<forall>n\<in>set ns. plain_name n" by simp_all
  let ?fin = "last (w1 # ws')"
  have fin: "last (w # ws) = ?fin" using ws by simp
  note IH = Cons.IH[OF l ch pns]
  have
    E1: "\<forall>j<length ns. \<not> isl (rs' ! j) \<longrightarrow>
            (\<exists>t items. contents gh (ns ! j) = Inr items
               \<and> manifest_entry ?fin (ns ! j) =
                   Some (JObj [(''commit_sha'', JStr sha), (''synced_at'', JStr t),
                               (''files'', JArr (map JStr (leaf_names items)))]))"
    and E2: "\<forall>m. (\<forall>j<length ns. ns ! j = m \<longrightarrow> isl (rs' ! j)) \<longrightarrow>
              manifest_entry ?fin m = manifest_entry w1 m"
    and E3: "\<forall>m q. m \<notin> set ns \<longrightarrow> nodes ?fin (m # q) = nodes w1 (m # q)"
    using IH by (rule conjunct1, rule conjunct2[THEN conjunct1], rule conjunct2[THEN conjunct2])
  have A: "\<exists>t items. contents gh ((n # ns) ! j) = Inr items
               \<and> manifest_entry ?fin ((n # ns) ! j) =
                   Some (JObj [(''commit_sha'', JStr sha), (''synced_at'', JStr t),
                               (''files'', JArr (map JStr (leaf_names items)))])"
    if j: "j < length (n # ns)" and ok: "\<not> isl ((r # rs') ! j)" for j
  proof (cases j)
    case (Suc k)
    with j ok E1 show ?thesis by simp
  next
    case 0
    with ok obtain fs where r: "r = Inr fs" by (cases r) auto
    from sync_cycle_entries[OF pn cyc[unfolded r]] obtain items where
      it: "contents gh n = Inr items" "fs = leaf_names items"
      and en: "manifest_entry w1 n =
           Some (JObj [(''commit_sha'', JStr sha), (''synced_at'', JStr (clock w (ticks w))),
                       (''files'', JArr (map JStr fs))])"
      by blast
    show ?thesis
    proof (cases "\<forall>k<length ns. ns ! k = n \<longrightarrow> isl (rs' ! k)")
      case True
      with E2 have "manifest_entry ?fin n = manifest_entry w1 n" by simp
      with it en 0 show ?thesis by simp
    next
      case False
      then obtain k where k: "k < length ns" "ns ! k = n" "\<not> isl (rs' ! k)" by blast
      from E1[rule_format, OF k(1) k(3)] k(2) 0 show ?thesis by simp
    qed
  qed
  have B: "manifest_entry ?fin m = manifest_entry w m"
    if all: "\<forall>j<length (n # ns). (n # ns) ! j = m \<longrightarrow> isl ((r # rs') ! j)" for m
  proof -
    have "\<forall>j<length ns. ns ! j = m \<longrightarrow> isl (rs' ! j)"
    proof (intro allI impI)
      fix j assume "j < length ns" "ns ! j = m"
      with all[rule_format, of "Suc j"] show "isl (rs' ! j)" by simp
    qed
    with E2 have f: "manifest_entry ?fin m = manifest_entry w1 m" by simp
    have "manifest_entry w1 m = manifest_entry w m"
    proof (cases r)
      case (Inl e)
      with cyc pn have "manifest_file w1 = manifest_file w" by (simp add: sync_cycle_Inl)
      from manifest_entry_cong[OF this] show ?thesis by simp
    next
      case (Inr fs)
      with all[rule_format, of 0] have "n \<noteq> m" by auto
      with sync_cycle_entries[OF pn cyc[unfolded Inr]] show ?thesis by simp
    qed
    with f show ?thesis by simp
  qed
  have C: "nodes ?fin (m # q) = nodes w (m # q)" if m: "m \<notin> set (n # ns)" for m q
  proof -
    from m E3 have "nodes ?fin (m # q) = nodes w1 (m # q)" by simp
    moreover from m have "\<not> prefix [n] (m # q)" by auto
    then have "nodes w1 (m # q) = nodes w (m # q)"
      using sync_cycle_nodes[OF pn cyc, of "m # q"] by simp
    ultimately show ?thesis by simp
  qed
  show ?case unfolding fin rs
  proof (intro conjI allI impI)
    fix j assume "j < length (n # ns)" "\<not> isl ((r # rs') ! j)"
    then show "\<exists>t items. contents gh ((n # ns) ! j) = Inr items
               \<and> manifest_entry ?fin ((n # ns) ! j) =
                   Some (JObj [(''commit_sha'', JStr sha), (''synced_at'', JStr t),
                               (''files'', JArr (map JStr (leaf_names items)))])"
      by (rule A)
  next
    fix m assume "\<forall>j<length (n # ns). (n # ns) ! j = m \<longrightarrow> isl ((r # rs') ! j)"
    then show "manifest_entry ?fin m = manifest_entry w m" by (rule B)
  next
    fix m q assume "m \<notin> set (n # ns)"
    then show "nodes ?fin (m # q) = nodes w (m # q)" by (rule C)
  qed
qed
lemma sync_cycle_step_raises:
  assumes "plain_name n" and "sync_cycle esc gh sha n w = (Inl e, w')"
  shows "step_raises gh sha n w e"
  using assms
proof (cases rule: sync_cycle_cases)
  case (removal e1)
  then show ?thesis by (simp add: step_raises_def)
next
  case (downloading w1 e1)
  from downloading(1)
  have "\<not> (path_exists w [n] \<and> isl (fst (rmtree [n] w)))
        \<and> (if path_exists w [n] then snd (rmtree [n] w) else w) = w1"
    by (auto split: if_splits)
  with downloading(2,3) show ?thesis by (auto simp: step_raises_def)
next
  case (recording w1 fs w2 r3)
  from recording(1)
  have a: "\<not> (path_exists w [n] \<and> isl (fst (rmtree [n] w)))
        \<and> (if path_exists w [n] then snd (rmtree [n] w) else w) = w1"
    by (auto split: if_splits)
  from recording(4) have "r3 = Inl e" by (cases r3) auto
  with recording(2,3) a show ?thesis by (auto simp: step_raises_def)
qed

text \<open>What \<^verbatim>\<open>sync_selected\<close> returns, in terms of its loop.\<close>

lemma sync_selected_loop:
  assumes "sync_selected esc gh a w = (r, msgs, a', w')"
  shows "\<exists>ms synced.
           sync_loop esc gh (app_remote_sha a) (length (skills_to_sync a)) 1 (skills_to_sync a)
             (synced_skills a) w = (ms, synced, w')
           \<and> msgs = ms @ [Done (length synced)]
           \<and> synced_skills a' = synced
           \<and> (r = Inr () \<longrightarrow> refresh_table (a\<lparr>synced_skills := synced\<rparr>) w' = Inr a')
           \<and> (r \<noteq> Inr () \<longrightarrow> a' = a\<lparr>synced_skills := synced\<rparr>)"
proof -
  obtain ms synced w1 where l:
    "sync_loop esc gh (app_remote_sha a) (length (skills_to_sync a)) 1 (skills_to_sync a)
       (synced_skills a) w = (ms, synced, w1)"
    by (cases "sync_loop esc gh (app_remote_sha a) (length (skills_to_sync a)) 1
       (skills_to_sync a) (synced_skills a) w")
  show ?thesis
  proof (cases "refresh_table (a\<lparr>synced_skills := synced\<rparr>) w1")
    case (Inl e)
    with assms l show ?thesis by (auto simp: sync_selected_def)
  next
    case (Inr a1)
    then have "synced_skills a1 = synced"
      by (auto simp: refresh_table_def split: sum.splits)
    with assms l Inr show ?thesis by (auto simp: sync_selected_def)
  qed
qed

text \<open>Names in the selection that no unit of the status sequence bears change nothing but
  stay selected.\<close>

lemma unmatched_names:
  assumes "sync_selected esc gh a w = (r, msgs, a', w')"
    and X: "X \<inter> set (map (name \<circ> skill) (app_statuses a)) = {}"
  shows "sync_selected esc gh (a\<lparr>selected := selected a \<union> X\<rparr>) w
           = (r, msgs, a'\<lparr>selected := selected a' \<union> X\<rparr>, w')"
proof -
  from sync_selected_loop[OF assms(1)] obtain ms synced where
    l: "sync_loop esc gh (app_remote_sha a) (length (skills_to_sync a)) 1 (skills_to_sync a)
             (synced_skills a) w = (ms, synced, w')"
    and m: "msgs = ms @ [Done (length synced)]"
    and ok: "r = Inr () \<longrightarrow> refresh_table (a\<lparr>synced_skills := synced\<rparr>) w' = Inr a'"
    and ko: "r \<noteq> Inr () \<longrightarrow> a' = a\<lparr>synced_skills := synced\<rparr>"
    by blast
  have same: "skills_to_sync (a\<lparr>selected := selected a \<union> X\<rparr>) = skills_to_sync a"
    unfolding skills_to_sync_def using X by (auto intro!: filter_cong)
  show ?thesis
  proof (cases "get_sync_status w' (map skill (app_statuses a)) (app_remote_sha a)")
    case (Inl e)
    then have rf: "refresh_table (a\<lparr>synced_skills := synced\<rparr>) w' = Inl e"
      by (simp add: refresh_table_def)
    with ok have "r \<noteq> Inr ()" by auto
    with ko have a': "a' = a\<lparr>synced_skills := synced\<rparr>" by simp
    from assms(1) l rf have "r = Inl e" by (simp add: sync_selected_def)
    with l m a' Inl same show ?thesis
      by (simp add: sync_selected_def refresh_table_def)
  next
    case (Inr sts)
    then have rf: "refresh_table (a\<lparr>synced_skills := synced\<rparr>) w' =
        Inr (a\<lparr>synced_skills := synced,
               selected := selected a - (set (map (name \<circ> skill) sts) \<inter> set synced),
               app_statuses := sts\<rparr>)"
      by (simp add: refresh_table_def)
    with assms(1) l have r: "r = Inr ()"
      and a': "a' = a\<lparr>synced_skills := synced,
               selected := selected a - (set (map (name \<circ> skill) sts) \<inter> set synced),
               app_statuses := sts\<rparr>"
      by (simp_all add: sync_selected_def)
    from Inr have "map skill sts = map skill (app_statuses a)"
      by (auto simp: get_sync_status_def split: sum.splits dest: status_loop_skills)
    then have "map (name \<circ> skill) sts = map (name \<circ> skill) (app_statuses a)"
      by (metis map_map)
    with X have "(selected a \<union> X) - (set (map (name \<circ> skill) sts) \<inter> set synced)
               = (selected a - (set (map (name \<circ> skill) sts) \<inter> set synced)) \<union> X"
      by auto
    with l m r a' Inr same show ?thesis
      by (simp add: sync_selected_def refresh_table_def)
  qed
qed

section \<open>The worker\<close>

text \<open>
  Claim C7 (selection). With \<open>ns\<close> the names of the units of the status sequence whose
  name is in the selected set, in the order of the status sequence, a run of the worker
  is the chain of the cycles of exactly these units in this order: cycle \<open>j\<close> runs for
  \<open>ns ! j\<close> on the world that cycle \<open>j - 1\<close> has left (the world of the start for the
  first), whether that one raised or not, and the world of the end is the one the last
  cycle has left. The messages are, for each of these units in order, the announcement
  with its index from 1 and the size of the subset, followed by the error when its cycle
  has raised, and then the final message; the names appended to the synced units are
  those whose cycle returned. When these names are single path components: a cycle is
  reported as failed only with the error that its removal, its download or its recording
  has raised; a unit whose cycle returned has afterwards a manifest entry with the
  revision of the session and the leaf names of its remote listing; every name without a
  returning cycle keeps its manifest entry; and the local directory of every name that
  is not in the subset is as it was. Selected names that no unit of the status sequence
  bears change nothing: with them the run has the same result, the same messages and the
  same world, and the same application state up to those names staying selected.
\<close>

theorem worker_selection:
  assumes "sync_selected esc gh a w = (r, msgs, a', w')"
  shows "(let ns = map (name \<circ> skill)
                     (filter (\<lambda>s. name (skill s) \<in> selected a) (app_statuses a));
              sha = app_remote_sha a
          in \<exists>rs ws.
               length rs = length ns \<and> length ws = length ns
             \<and> (\<forall>j<length ns.
                   sync_cycle esc gh sha (ns ! j) ((w # ws) ! j) = (rs ! j, ws ! j))
             \<and> w' = last (w # ws)
             \<and> msgs = concat (map (unit_msgs (length ns))
                                  (zip [1..<Suc (length ns)] (zip ns rs)))
                        @ [Done (length (synced_skills a'))]
             \<and> synced_skills a' = synced_skills a @ succeeded ns rs
             \<and> ((\<forall>n\<in>set ns. plain_name n) \<longrightarrow>
                   (\<forall>j<length ns. \<forall>e. rs ! j = Inl e \<longrightarrow>
                       step_raises gh sha (ns ! j) ((w # ws) ! j) e)
                 \<and> (\<forall>j<length ns. \<not> isl (rs ! j) \<longrightarrow>
                       (\<exists>t items. contents gh (ns ! j) = Inr items
                          \<and> manifest_entry w' (ns ! j) =
                              Some (JObj [(''commit_sha'', JStr sha), (''synced_at'', JStr t),
                                          (''files'', JArr (map JStr (leaf_names items)))])))
                 \<and> (\<forall>m. (\<forall>j<length ns. ns ! j = m \<longrightarrow> isl (rs ! j)) \<longrightarrow>
                        manifest_entry w' m = manifest_entry w m)
                 \<and> (\<forall>m q. m \<notin> set ns \<longrightarrow> nodes w' (m # q) = nodes w (m # q))))
         \<and> (\<forall>X. X \<inter> set (map (name \<circ> skill) (app_statuses a)) = {} \<longrightarrow>
               sync_selected esc gh (a\<lparr>selected := selected a \<union> X\<rparr>) w
                 = (r, msgs, a'\<lparr>selected := selected a' \<union> X\<rparr>, w'))"
proof -
  let ?ns = "map (name \<circ> skill) (skills_to_sync a)"
  let ?sha = "app_remote_sha a"
  from sync_selected_loop[OF assms] obtain ms synced where
    l: "sync_loop esc gh ?sha (length (skills_to_sync a)) 1 (skills_to_sync a)
             (synced_skills a) w = (ms, synced, w')"
    and m: "msgs = ms @ [Done (length synced)]"
    and s: "synced_skills a' = synced"
    by blast
  from sync_loop_trace[OF l] obtain rs ws where
    len: "length rs = length ?ns" "length ws = length ?ns"
    and ch: "\<forall>j<length ?ns. sync_cycle esc gh ?sha (?ns ! j) ((w # ws) ! j) = (rs ! j, ws ! j)"
    and la: "w' = last (w # ws)"
    and ms: "ms = concat (map (unit_msgs (length ?ns)) (zip [1..<Suc (length ?ns)] (zip ?ns rs)))"
    and sy: "synced = synced_skills a @ succeeded ?ns rs"
    by auto
  have msgs: "msgs = concat (map (unit_msgs (length ?ns)) (zip [1..<Suc (length ?ns)] (zip ?ns rs)))
                        @ [Done (length (synced_skills a'))]"
    using m ms s by simp
  have sy': "synced_skills a' = synced_skills a @ succeeded ?ns rs" using s sy by simp
  have eff: "(\<forall>j<length ?ns. \<forall>e. rs ! j = Inl e \<longrightarrow>
                       step_raises gh ?sha (?ns ! j) ((w # ws) ! j) e)
                 \<and> (\<forall>j<length ?ns. \<not> isl (rs ! j) \<longrightarrow>
                       (\<exists>t items. contents gh (?ns ! j) = Inr items
                          \<and> manifest_entry w' (?ns ! j) =
                              Some (JObj [(''commit_sha'', JStr ?sha), (''synced_at'', JStr t),
                                          (''files'', JArr (map JStr (leaf_names items)))])))
                 \<and> (\<forall>m. (\<forall>j<length ?ns. ?ns ! j = m \<longrightarrow> isl (rs ! j)) \<longrightarrow>
                        manifest_entry w' m = manifest_entry w m)
                 \<and> (\<forall>m q. m \<notin> set ?ns \<longrightarrow> nodes w' (m # q) = nodes w (m # q))"
    if plain: "\<forall>n\<in>set ?ns. plain_name n"
  proof -
    have c: "step_raises gh ?sha (?ns ! j) ((w # ws) ! j) e"
      if j: "j < length ?ns" and e: "rs ! j = Inl e" for j e
    proof -
      from plain j have "plain_name (?ns ! j)" by (metis nth_mem)
      moreover from ch j e
      have "sync_cycle esc gh ?sha (?ns ! j) ((w # ws) ! j) = (Inl e, ws ! j)" by simp
      ultimately show ?thesis by (rule sync_cycle_step_raises)
    qed
    from chain_effects[OF len ch plain] la c show ?thesis by blast
  qed
  have first: "\<exists>rs ws.
               length rs = length ?ns \<and> length ws = length ?ns
             \<and> (\<forall>j<length ?ns.
                   sync_cycle esc gh ?sha (?ns ! j) ((w # ws) ! j) = (rs ! j, ws ! j))
             \<and> w' = last (w # ws)
             \<and> msgs = concat (map (unit_msgs (length ?ns))
                                  (zip [1..<Suc (length ?ns)] (zip ?ns rs)))
                        @ [Done (length (synced_skills a'))]
             \<and> synced_skills a' = synced_skills a @ succeeded ?ns rs
             \<and> ((\<forall>n\<in>set ?ns. plain_name n) \<longrightarrow>
                   (\<forall>j<length ?ns. \<forall>e. rs ! j = Inl e \<longrightarrow>
                       step_raises gh ?sha (?ns ! j) ((w # ws) ! j) e)
                 \<and> (\<forall>j<length ?ns. \<not> isl (rs ! j) \<longrightarrow>
                       (\<exists>t items. contents gh (?ns ! j) = Inr items
                          \<and> manifest_entry w' (?ns ! j) =
                              Some (JObj [(''commit_sha'', JStr ?sha), (''synced_at'', JStr t),
                                          (''files'', JArr (map JStr (leaf_names items)))])))
                 \<and> (\<forall>m. (\<forall>j<length ?ns. ?ns ! j = m \<longrightarrow> isl (rs ! j)) \<longrightarrow>
                        manifest_entry w' m = manifest_entry w m)
                 \<and> (\<forall>m q. m \<notin> set ?ns \<longrightarrow> nodes w' (m # q) = nodes w (m # q)))"
    using len ch la msgs sy' eff
    by (intro exI[of _ rs] exI[of _ ws] conjI impI) (assumption | blast)+
  from first unmatched_names[OF assms] show ?thesis
    unfolding Let_def skills_to_sync_def by (intro conjI allI impI)
qed
lemmas run_defs =
  sync_selected_def skills_to_sync_def fresh_app_def new_status_def
  docx_def pdf_def pptx_def xlsx_def batch_remote_def empty_world_def
  sync_cycle_def plain_name_def outside_fails_def
  path_exists_def download_skill_def mkdir_p_def is_file_def
  download_file_def write_bytes_def record_sync_def get_manifest_def json_loads_def
  datetime_now_def save_manifest_def json_dumps_def refresh_table_def
  get_sync_status_def local_skills_def unit_status_def rmtree_def

lemma batch_run_result:
  "fst batch_run = Inr ()
   \<and> fst (snd batch_run) =
       [Syncing ''docx'' 1 3, Syncing ''pdf'' 2 3, ErrorSyncing ''pdf'' (HTTPStatusError 500),
        Syncing ''pptx'' 3 3, Done 2]
   \<and> synced_skills (fst (snd (snd batch_run))) = [''docx'', ''pptx'']
   \<and> selected (fst (snd (snd batch_run))) = {''pdf''}"
  by (simp add: batch_run_def run_defs insert_Diff_if)

lemma docx_cycle:
  "fst (sync_cycle outside_fails batch_remote ''abcdef1234567'' ''docx'' empty_world)
     = Inr [''SKILL.md'']"
  by (simp add: run_defs)

lemma pdf_cycle:
  "fst (sync_cycle outside_fails batch_remote ''abcdef1234567'' ''pdf''
          (snd (sync_cycle outside_fails batch_remote ''abcdef1234567'' ''docx'' empty_world)))
     = Inl (HTTPStatusError 500)"
  by (simp add: run_defs)

theorem worker_selection_witness:
  "fst batch_run = Inr ()
   \<and> fst (snd batch_run) =
       [Syncing ''docx'' 1 3, Syncing ''pdf'' 2 3, ErrorSyncing ''pdf'' (HTTPStatusError 500),
        Syncing ''pptx'' 3 3, Done 2]
   \<and> synced_skills (fst (snd (snd batch_run))) = [''docx'', ''pptx'']
   \<and> selected (fst (snd (snd batch_run))) = {''pdf''}
   \<and> step_raises batch_remote ''abcdef1234567'' ''pdf''
        (snd (sync_cycle outside_fails batch_remote ''abcdef1234567'' ''docx'' empty_world))
        (HTTPStatusError 500)
   \<and> (\<exists>t. manifest_entry (snd (snd (snd batch_run))) ''docx'' =
              Some (JObj [(''commit_sha'', JStr ''abcdef1234567''), (''synced_at'', JStr t),
                          (''files'', JArr [JStr ''SKILL.md''])]))
   \<and> manifest_entry (snd (snd (snd batch_run))) ''pdf'' = None
   \<and> nodes (snd (snd (snd batch_run))) [''xlsx''] = None
   \<and> sync_selected outside_fails batch_remote
         (fresh_app\<lparr>selected := selected fresh_app \<union> {''ghost''}\<rparr>) empty_world
       = (fst batch_run, fst (snd batch_run),
          (fst (snd (snd batch_run)))\<lparr>selected := selected (fst (snd (snd batch_run)))
                                                    \<union> {''ghost''}\<rparr>,
          snd (snd (snd batch_run)))"
proof -
  let ?ns = "map (name \<circ> skill)
               (filter (\<lambda>s. name (skill s) \<in> selected fresh_app) (app_statuses fresh_app))"
  let ?sha = "app_remote_sha fresh_app"
  let ?w1 = "snd (sync_cycle outside_fails batch_remote ''abcdef1234567'' ''docx'' empty_world)"
  obtain r msgs a' w' where
    run: "sync_selected outside_fails batch_remote fresh_app empty_world = (r, msgs, a', w')"
    by (cases "sync_selected outside_fails batch_remote fresh_app empty_world")
  then have br: "batch_run = (r, msgs, a', w')" by (simp add: batch_run_def)
  have ns: "?ns = [''docx'', ''pdf'', ''pptx'']"
    by (simp add: fresh_app_def new_status_def docx_def pdf_def pptx_def xlsx_def)
  have sha: "?sha = ''abcdef1234567''" by (simp add: fresh_app_def)
  have plain: "\<forall>n\<in>set ?ns. plain_name n" by (simp add: ns plain_name_def)
  let ?B = "\<lambda>rs ws.
               length rs = length ?ns \<and> length ws = length ?ns
             \<and> (\<forall>j<length ?ns.
                   sync_cycle outside_fails batch_remote ?sha (?ns ! j) ((empty_world # ws) ! j)
                     = (rs ! j, ws ! j))
             \<and> w' = last (empty_world # ws)
             \<and> msgs = concat (map (unit_msgs (length ?ns))
                                  (zip [1..<Suc (length ?ns)] (zip ?ns rs)))
                        @ [Done (length (synced_skills a'))]
             \<and> synced_skills a' = synced_skills fresh_app @ succeeded ?ns rs
             \<and> ((\<forall>n\<in>set ?ns. plain_name n) \<longrightarrow>
                   (\<forall>j<length ?ns. \<forall>e. rs ! j = Inl e \<longrightarrow>
                       step_raises batch_remote ?sha (?ns ! j) ((empty_world # ws) ! j) e)
                 \<and> (\<forall>j<length ?ns. \<not> isl (rs ! j) \<longrightarrow>
                       (\<exists>t items. contents batch_remote (?ns ! j) = Inr items
                          \<and> manifest_entry w' (?ns ! j) =
                              Some (JObj [(''commit_sha'', JStr ?sha), (''synced_at'', JStr t),
                                          (''files'', JArr (map JStr (leaf_names items)))])))
                 \<and> (\<forall>m. (\<forall>j<length ?ns. ?ns ! j = m \<longrightarrow> isl (rs ! j)) \<longrightarrow>
                        manifest_entry w' m = manifest_entry empty_world m)
                 \<and> (\<forall>m q. m \<notin> set ?ns \<longrightarrow> nodes w' (m # q) = nodes empty_world (m # q)))"
  note T = worker_selection[OF run, unfolded Let_def]
  from T have "\<exists>rs ws. ?B rs ws" by (rule conjunct1)
  then obtain rs where "\<exists>ws. ?B rs ws" ..
  then obtain ws where B: "?B rs ws" ..
  from B have ch: "\<forall>j<length ?ns.
      sync_cycle outside_fails batch_remote ?sha (?ns ! j) ((empty_world # ws) ! j)
        = (rs ! j, ws ! j)"
    by (elim conjE)
  note E = B[THEN conjunct2, THEN conjunct2, THEN conjunct2, THEN conjunct2, THEN conjunct2,
               THEN conjunct2, THEN mp, OF plain]
  note cause = E[THEN conjunct1]
  note recorded = E[THEN conjunct2, THEN conjunct1]
  note kept = E[THEN conjunct2, THEN conjunct2, THEN conjunct1]
  note others = E[THEN conjunct2, THEN conjunct2, THEN conjunct2]
  from ch[rule_format, of 0]
  have c0: "sync_cycle outside_fails batch_remote ''abcdef1234567'' ''docx'' empty_world
              = (rs ! 0, ws ! 0)"
    by (simp add: ns sha)
  from c0 docx_cycle have r0: "rs ! 0 = Inr [''SKILL.md'']" by simp
  from c0 have w0: "ws ! 0 = ?w1" by simp
  from ch[rule_format, of 1]
  have c1: "sync_cycle outside_fails batch_remote ''abcdef1234567'' ''pdf'' ?w1
              = (rs ! 1, ws ! 1)"
    by (simp add: ns sha w0)
  from c1 pdf_cycle have r1: "rs ! 1 = Inl (HTTPStatusError 500)" by simp
  from cause[rule_format, of 1 "HTTPStatusError 500"] r1
  have 1: "step_raises batch_remote ''abcdef1234567'' ''pdf'' ?w1 (HTTPStatusError 500)"
    by (simp add: ns sha w0)
  from recorded[rule_format, of 0] r0
  have 2: "\<exists>t. manifest_entry w' ''docx'' =
              Some (JObj [(''commit_sha'', JStr ''abcdef1234567''), (''synced_at'', JStr t),
                          (''files'', JArr [JStr ''SKILL.md''])])"
    by (auto simp: ns sha batch_remote_def)
  have "\<forall>j<length ?ns. ?ns ! j = ''pdf'' \<longrightarrow> isl (rs ! j)"
    using r1 by (auto simp: ns less_Suc_eq numeral_3_eq_3)
  with kept have "manifest_entry w' ''pdf'' = manifest_entry empty_world ''pdf''" by simp
  then have 3: "manifest_entry w' ''pdf'' = None"
    by (simp add: manifest_entry_def local_skills_def get_manifest_def empty_world_def)
  from others[rule_format, of "''xlsx''" "[]"]
  have 4: "nodes w' [''xlsx''] = None" by (simp add: ns empty_world_def)
  from T have "\<forall>X. X \<inter> set (map (name \<circ> skill) (app_statuses fresh_app)) = {} \<longrightarrow>
               sync_selected outside_fails batch_remote
                 (fresh_app\<lparr>selected := selected fresh_app \<union> X\<rparr>) empty_world
                 = (r, msgs, a'\<lparr>selected := selected a' \<union> X\<rparr>, w')"
    by (rule conjunct2)
  from this[rule_format, of "{''ghost''}"]
  have 5: "sync_selected outside_fails batch_remote
             (fresh_app\<lparr>selected := selected fresh_app \<union> {''ghost''}\<rparr>) empty_world
           = (r, msgs, a'\<lparr>selected := selected a' \<union> {''ghost''}\<rparr>, w')"
    by (simp add: fresh_app_def new_status_def docx_def pdf_def pptx_def xlsx_def)
  from batch_run_result 1 2 3 4 5 show ?thesis
    unfolding br fst_conv snd_conv by (intro conjI) (elim conjE, assumption)+
qed

section \<open>The count of a batch\<close>

text \<open>
  Claim C1 (failure isolation). The claim has two halves. That a unit whose cycle raises
  is reported and does not stop the batch holds of the worker, as shown for the selection
  above. That the batch ends by reporting the number of units that succeeded does not:
  the final message reports the length of the list of synced units of the application,
  which is created once and to which every batch of the session appends. In the session
  below the user first syncs \<^verbatim>\<open>xlsx\<close> alone, then selects \<^verbatim>\<open>docx\<close>, \<^verbatim>\<open>pdf\<close> and \<^verbatim>\<open>pptx\<close> and
  syncs again; the listing of \<^verbatim>\<open>pdf\<close> fails. In the second batch two units of three have
  succeeded, and its final message reports three.
\<close>

theorem second_batch_reports_session_total:
  "fst (snd first_run) = [Syncing ''xlsx'' 1 1, Done 1]
   \<and> synced_skills (fst (snd (snd first_run))) = [''xlsx'']
   \<and> fst (snd second_run) =
       [Syncing ''docx'' 1 3, Syncing ''pdf'' 2 3, ErrorSyncing ''pdf'' (HTTPStatusError 500),
        Syncing ''pptx'' 3 3, Done 3]
   \<and> synced_skills (fst (snd (snd second_run))) = [''xlsx'', ''docx'', ''pptx'']"
  by (simp add: first_run_def second_run_def run_defs)

end
